theory Spec2Isabelle
  imports Main "HOL-Library.Sublist" "HOL-Library.Finite_Map" "HOL-Library.Word"
begin

section \<open>Bytes, errors and dynamically typed values\<close>

text \<open>
  Go's \<^verbatim>\<open>[]byte\<close> and \<^verbatim>\<open>string\<close> are both sequences of bytes; both are
  modelled as \<^typ>\<open>string\<close> (a list of 8-bit characters).
\<close>

type_synonym bytes = string

text \<open>
  The error classes of \<^verbatim>\<open>io/fs\<close> that \<^verbatim>\<open>errors.Is\<close> can test for, and the
  error values the server can return: a \<^verbatim>\<open>*fs.PathError\<close> (operation, path, class),
  the value of \<^verbatim>\<open>errors.New\<close>, an error of one of the decoding or encoding
  libraries (opaque to the server), and the two sentinels of \<^verbatim>\<open>fs.WalkDir\<close>.
\<close>

datatype errno = ErrInvalid | ErrPermission | ErrExist | ErrNotExist | ErrClosed

datatype error =
    PathError string string errno
  | errorString string
  | LibError string
  | SkipDir
  | SkipAll


fun errno_text :: "errno \<Rightarrow> string" where
  "errno_text ErrInvalid = ''invalid argument''"
| "errno_text ErrPermission = ''permission denied''"
| "errno_text ErrExist = ''file already exists''"
| "errno_text ErrNotExist = ''file does not exist''"
| "errno_text ErrClosed = ''file already closed''"

fun Error :: "error \<Rightarrow> string" where
  "Error (PathError op' path e) = op' @ '' '' @ path @ '': '' @ errno_text e"
| "Error (errorString s) = s"
| "Error (LibError s) = s"
| "Error SkipDir = ''skip this directory''"
| "Error SkipAll = ''skip everything and stop the walk''"

text \<open>
  A value of Go's \<^verbatim>\<open>any\<close> as the decoders produce it. The YAML decoder yields
  \<^verbatim>\<open>uint64\<close> for a non-negative integer, the TOML decoder \<^verbatim>\<open>int64\<close>; the two
  are different constructors. A float is kept as its 64-bit pattern.
\<close>

datatype any =
    String string
  | Uint64 "64 word"
  | Int64 "64 word"
  | Float64 "64 word"
  | Bool bool
  | Slice "any list"
  | Map "(string, any) fmap"
  | Nil

text \<open>
  A Go \<^verbatim>\<open>map[string]any\<close>: \<^term>\<open>None\<close> is the nil map, \<^term>\<open>Some m\<close> an
  allocated map (possibly with no entry). \<^verbatim>\<open>delete\<close> on the nil map does nothing and
  \<^verbatim>\<open>len\<close> of the nil map is 0.
\<close>

type_synonym frontmatter = "(string, any) fmap option"

definition go_delete :: "frontmatter \<Rightarrow> string \<Rightarrow> frontmatter" where
  "go_delete m key = map_option (fmdrop key) m"

definition go_len :: "frontmatter \<Rightarrow> nat" where
  "go_len m = (case m of None \<Rightarrow> 0 | Some f \<Rightarrow> fcard (fmdom f))"

section \<open>The functions of the Go standard library that the server calls\<close>

subsection \<open>\<^verbatim>\<open>bytes.HasPrefix\<close>, \<^verbatim>\<open>bytes.Index\<close> and slicing\<close>

definition HasPrefix :: "bytes \<Rightarrow> bytes \<Rightarrow> bool" where
  "HasPrefix s p = prefix p s"

text \<open>The index of the first occurrence of \<open>sep\<close> in \<open>s\<close>, or \<open>-1\<close>.\<close>

fun Index :: "bytes \<Rightarrow> bytes \<Rightarrow> int" where
  "Index [] sep = (if sep = [] then 0 else -1)"
| "Index (c # s) sep =
     (if prefix sep (c # s) then 0
      else (let i = Index s sep in if i = -1 then -1 else i + 1))"

text \<open>
  \<^verbatim>\<open>s[lo:]\<close> and \<^verbatim>\<open>s[lo:hi]\<close>. Go panics unless \<open>0 \<le> lo \<le> hi \<le> len s\<close>; the
  lemma \<open>readFrontmatter_slices_in_range\<close> below shows that the bounds hold at every
  slice expression of the server.
\<close>

definition slice_from :: "bytes \<Rightarrow> int \<Rightarrow> bytes" where
  "slice_from s lo = drop (nat lo) s"

definition slice :: "bytes \<Rightarrow> int \<Rightarrow> int \<Rightarrow> bytes" where
  "slice s lo hi = take (nat (hi - lo)) (drop (nat lo) s)"

definition len :: "bytes \<Rightarrow> int" where
  "len s = int (length s)"

subsection \<open>\<^verbatim>\<open>bytes.TrimSpace\<close>\<close>

text \<open>
  \<^verbatim>\<open>bytes.TrimSpace\<close> removes the leading and trailing runes for which
  \<^verbatim>\<open>unicode.IsSpace\<close> holds. Six of them are single ASCII bytes; the others are
  U+0085, U+00A0, U+1680, U+2000 to U+200A, U+2028, U+2029, U+202F, U+205F and U+3000,
  listed here by their UTF-8 encodings. A byte sequence that is not the encoding of one of
  these runes decodes to another rune (or to \<^verbatim>\<open>RuneError\<close> of width 1) and stops
  the trimming.
\<close>

definition asciiSpace :: "char \<Rightarrow> bool" where
  "asciiSpace c = (c \<in> set [CHR 0x09, CHR 0x0A, CHR 0x0B, CHR 0x0C, CHR 0x0D, CHR 0x20])"

definition unicodeSpaces :: "bytes list" where
  "unicodeSpaces =
     [[CHR 0xC2, CHR 0x85], [CHR 0xC2, CHR 0xA0], [CHR 0xE1, CHR 0x9A, CHR 0x80],
      [CHR 0xE2, CHR 0x80, CHR 0x80], [CHR 0xE2, CHR 0x80, CHR 0x81],
      [CHR 0xE2, CHR 0x80, CHR 0x82], [CHR 0xE2, CHR 0x80, CHR 0x83],
      [CHR 0xE2, CHR 0x80, CHR 0x84], [CHR 0xE2, CHR 0x80, CHR 0x85],
      [CHR 0xE2, CHR 0x80, CHR 0x86], [CHR 0xE2, CHR 0x80, CHR 0x87],
      [CHR 0xE2, CHR 0x80, CHR 0x88], [CHR 0xE2, CHR 0x80, CHR 0x89],
      [CHR 0xE2, CHR 0x80, CHR 0x8A], [CHR 0xE2, CHR 0x80, CHR 0xA8],
      [CHR 0xE2, CHR 0x80, CHR 0xA9], [CHR 0xE2, CHR 0x80, CHR 0xAF],
      [CHR 0xE2, CHR 0x81, CHR 0x9F], [CHR 0xE3, CHR 0x80, CHR 0x80]]"

text \<open>
  The number of bytes of the space rune that \<open>s\<close> starts with (among the encodings
  \<open>enc\<close>), or 0 when \<open>s\<close> starts with no space rune.
\<close>

definition spaceWidth :: "bytes list \<Rightarrow> bytes \<Rightarrow> nat" where
  "spaceWidth enc s =
     (case s of [] \<Rightarrow> 0
      | c # _ \<Rightarrow> if asciiSpace c then 1
                 else (case find (\<lambda>q. prefix q s) enc of None \<Rightarrow> 0 | Some q \<Rightarrow> length q))"

function trimRunes :: "bytes list \<Rightarrow> bytes \<Rightarrow> bytes" where
  "trimRunes enc [] = []"
| "trimRunes enc (c # s) =
     (case spaceWidth enc (c # s) of 0 \<Rightarrow> c # s | Suc n \<Rightarrow> trimRunes enc (drop n s))"
  by pat_completeness auto
termination
  by (relation "measure (\<lambda>(enc, s). length s)") auto

text \<open>
  Trimming on the right decodes the last rune, which for a space rune means that the
  bytes end with its encoding: the same loop on the reversed bytes with the reversed
  encodings.
\<close>

definition TrimLeft :: "bytes \<Rightarrow> bytes" where
  "TrimLeft s = trimRunes unicodeSpaces s"

definition TrimRight :: "bytes \<Rightarrow> bytes" where
  "TrimRight s = rev (trimRunes (map rev unicodeSpaces) (rev s))"

definition TrimSpace :: "bytes \<Rightarrow> bytes" where
  "TrimSpace s = TrimRight (TrimLeft s)"

subsection \<open>\<^verbatim>\<open>filepath.Ext\<close>, \<^verbatim>\<open>filepath.Base\<close> and \<^verbatim>\<open>path.Join\<close>\<close>

text \<open>
  \<^verbatim>\<open>Ext\<close> scans from the end of the path for a dot and stops at a slash: the
  extension is the suffix that starts at the last dot of the last element.
\<close>

fun Ext_scan :: "string \<Rightarrow> string \<Rightarrow> string" where
  "Ext_scan [] acc = []"
| "Ext_scan (c # rest) acc =
     (if c = CHR ''/'' then []
      else if c = CHR ''.'' then c # acc
      else Ext_scan rest (c # acc))"

definition Ext :: "string \<Rightarrow> string" where
  "Ext path = Ext_scan (rev path) []"

definition Base :: "string \<Rightarrow> string" where
  "Base path =
     (if path = [] then ''.''
      else (let stripped = rev (dropWhile (\<lambda>c. c = CHR ''/'') (rev path));
                elem = rev (takeWhile (\<lambda>c. c \<noteq> CHR ''/'') (rev stripped))
            in if elem = [] then ''/'' else elem))"

text \<open>
  \<^verbatim>\<open>fs.WalkDir\<close> joins the path of a directory with the name of one of its entries.
  By the contract of \<^verbatim>\<open>io/fs\<close> such a name is a valid path element (not empty, no
  slash, neither \<^verbatim>\<open>.\<close> nor \<^verbatim>\<open>..\<close>), and the directory path is \<^verbatim>\<open>.\<close> or
  already clean; on these arguments \<^verbatim>\<open>path.Join\<close> is the following.
\<close>

definition Join :: "string \<Rightarrow> string \<Rightarrow> string" where
  "Join dir elem = (if dir = ''.'' then elem else dir @ ''/'' @ elem)"

section \<open>The filesystem \<^verbatim>\<open>fs.FS\<close>\<close>

text \<open>
  The server reads its filesystem through \<^verbatim>\<open>fs.ReadFile\<close>, \<^verbatim>\<open>fs.Stat\<close> and
  \<^verbatim>\<open>fs.WalkDir\<close> only. A filesystem is a snapshot: the finite tree of directory
  entries that the walk sees (each with its name, its kind, the result of
  \<^verbatim>\<open>Info\<close>, and for a directory the entries and the error of \<^verbatim>\<open>ReadDir\<close>),
  and the results of reading and of \<^verbatim>\<open>Stat\<close> for every path. Any of these
  operations may fail. An \<^verbatim>\<open>int64\<close> size is only copied, never computed with.
\<close>

record FileInfo =
  Size :: int

datatype DirEntry =
  DirEntry (Name: string) (IsDir: bool) (Info: "error + FileInfo")
           (ReadDir: "DirEntry list") (ReadDir_err: "error option")

record FS =
  root :: DirEntry
  ReadFile :: "string \<Rightarrow> error + bytes"
  Stat :: "string \<Rightarrow> error + FileInfo"

text \<open>
  \<^verbatim>\<open>fs.WalkDir\<close>, for a callback that threads a state \<open>'st\<close> (what the Go closure
  captures and updates). The callback gets the path, the entry (nil only together with an
  error) and an error, and returns an error or nil.
\<close>

type_synonym 'st WalkDirFunc = "string \<Rightarrow> DirEntry option \<Rightarrow> error option \<Rightarrow> 'st \<Rightarrow> error option \<times> 'st"

fun walkDir :: "'st WalkDirFunc \<Rightarrow> string \<Rightarrow> DirEntry \<Rightarrow> 'st \<Rightarrow> error option \<times> 'st"
  and walkDir_range :: "'st WalkDirFunc \<Rightarrow> string \<Rightarrow> DirEntry list \<Rightarrow> 'st \<Rightarrow> error option \<times> 'st"
where
  "walkDir fn path (DirEntry n isDir info dirs rerr) st =
     (case fn path (Some (DirEntry n isDir info dirs rerr)) None st of
        (Some err, st1) \<Rightarrow> (if err = SkipDir \<and> isDir then None else Some err, st1)
      | (None, st1) \<Rightarrow>
          if \<not> isDir then (None, st1)
          else
            (case rerr of
               None \<Rightarrow> walkDir_range fn path dirs st1
             | Some e \<Rightarrow>
                 (case fn path (Some (DirEntry n isDir info dirs rerr)) (Some e) st1 of
                    (Some err, st2) \<Rightarrow> (if err = SkipDir \<and> isDir then None else Some err, st2)
                  | (None, st2) \<Rightarrow> walkDir_range fn path dirs st2)))"
| "walkDir_range fn path [] st = (None, st)"
| "walkDir_range fn path (d1 # dirs) st =
     (case walkDir fn (Join path (Name d1)) d1 st of
        (Some err, st1) \<Rightarrow> (if err = SkipDir then (None, st1) else (Some err, st1))
      | (None, st1) \<Rightarrow> walkDir_range fn path dirs st1)"

definition WalkDir :: "FS \<Rightarrow> string \<Rightarrow> 'st WalkDirFunc \<Rightarrow> 'st \<Rightarrow> error option \<times> 'st" where
  "WalkDir fsys root_path fn st =
     (case (case Stat fsys root_path of
              Inl err \<Rightarrow> fn root_path None (Some err) st
            | Inr info \<Rightarrow> walkDir fn root_path (root fsys) st) of
        (err, st1) \<Rightarrow> (if err = Some SkipDir \<or> err = Some SkipAll then None else err, st1))"

section \<open>The protocol library and the decoding and encoding libraries\<close>

text \<open>
  What the server hands to the protocol library \<^verbatim>\<open>mcp\<close>: resources, the resource
  reader, tools (name and description), and the options of the caller, which the server
  passes on unread.
\<close>

record Resource =
  URI :: string
  Name :: string
  Description :: string
  MimeType :: string
  Size :: int

record TextResourceContents =
  URI :: string
  Text :: string
  MimeType :: string

datatype mcp_ServerOption =
    WithResource Resource
  | WithResourceReader
  | WithTool string string
  | OtherOption string

text \<open>
  \<^verbatim>\<open>yaml.Unmarshal\<close>, \<^verbatim>\<open>toml.Unmarshal\<close>, \<^verbatim>\<open>json.Marshal\<close> and
  \<^verbatim>\<open>mcp.NewServer\<close> belong to other modules; the server is modelled for any
  behaviour of theirs. An unmarshaler is called on a nil map: it fails, or leaves the map
  nil, or allocates it. The server built by \<^verbatim>\<open>mcp.NewServer\<close> is of any type
  \<open>'srv\<close>.
\<close>

record 'srv Libs =
  yaml_Unmarshal :: "bytes \<Rightarrow> error + frontmatter"
  toml_Unmarshal :: "bytes \<Rightarrow> error + frontmatter"
  json_Marshal :: "frontmatter \<Rightarrow> error + bytes"
  mcp_NewServer :: "string \<Rightarrow> string \<Rightarrow> mcp_ServerOption list \<Rightarrow> error + 'srv"

section \<open>The frontmatter extractor\<close>

record unmarshaler =
  Unmarshaler :: "bytes \<Rightarrow> error + frontmatter"
  Delimiter :: string

definition unmarshalers :: "'srv Libs \<Rightarrow> unmarshaler list" where
  "unmarshalers L =
     [\<lparr>Unmarshaler = yaml_Unmarshal L, Delimiter = ''---\<newline>''\<rparr>,
      \<lparr>Unmarshaler = toml_Unmarshal L, Delimiter = ''+++\<newline>''\<rparr>]"

text \<open>
  The loop over the unmarshalers, on the trimmed content; \<^verbatim>\<open>continue\<close> is the
  recursive call on the remaining unmarshalers, and leaving the loop returns
  \<^verbatim>\<open>nil, nil\<close>. Of its receiver the method reads the field
  \<^verbatim>\<open>excludeFrontmatter\<close> only, which is the argument \<open>keys\<close> here.
\<close>

fun readFrontmatter_range :: "string list \<Rightarrow> unmarshaler list \<Rightarrow> bytes \<Rightarrow> error + frontmatter" where
  "readFrontmatter_range keys [] content = Inr None"
| "readFrontmatter_range keys (u # us) content =
     (if HasPrefix content (Delimiter u) then
        (let start = Index content (Delimiter u) in
         if start = -1 then readFrontmatter_range keys us content
         else
           (let end' = Index (slice_from content (start + len (Delimiter u)))
                             (''\<newline>'' @ Delimiter u) in
            if end' = -1 then readFrontmatter_range keys us content
            else
              (case Unmarshaler u (slice content (start + len (Delimiter u))
                                         (start + len (Delimiter u) + end')) of
                 Inl err \<Rightarrow> Inl err
               | Inr decoded \<Rightarrow>
                   (let frontmatter = fold (\<lambda>key m. go_delete m key) keys decoded in
                    if go_len frontmatter = 0 then Inr None else Inr frontmatter))))
      else readFrontmatter_range keys us content)"

definition readFrontmatter :: "'srv Libs \<Rightarrow> string list \<Rightarrow> bytes \<Rightarrow> error + frontmatter" where
  "readFrontmatter L keys content =
     readFrontmatter_range keys (unmarshalers L) (TrimSpace content)"

section \<open>The server\<close>

record Server =
  name :: string
  description :: string
  fs :: FS
  opts :: "mcp_ServerOption list"
  excludeFrontmatter :: "string list"

type_synonym ServerOption = "Server \<Rightarrow> Server"

definition WithMCPOptions :: "mcp_ServerOption list \<Rightarrow> ServerOption" where
  "WithMCPOptions os s = s\<lparr>opts := opts s @ os\<rparr>"

definition WithExcludeFrontmatter :: "string list \<Rightarrow> ServerOption" where
  "WithExcludeFrontmatter ks s = s\<lparr>excludeFrontmatter := excludeFrontmatter s @ ks\<rparr>"

record markdownFileInfo =
  Path :: string
  Size :: int
  Frontmatter :: frontmatter

record listMarkdownFilesResponse =
  Files :: "markdownFileInfo list"

record readMarkdownFileResponse =
  Path :: string
  Size :: int
  Frontmatter :: frontmatter
  Content :: string

definition readMarkdownInfo :: "'srv Libs \<Rightarrow> Server \<Rightarrow> string \<Rightarrow> DirEntry \<Rightarrow> error + markdownFileInfo" where
  "readMarkdownInfo L s path d =
     (case Info d of
        Inl err \<Rightarrow> Inl err
      | Inr info \<Rightarrow>
          (case ReadFile (fs s) path of
             Inl err \<Rightarrow> Inl err
           | Inr content \<Rightarrow>
               (case readFrontmatter L (excludeFrontmatter s) content of
                  Inl err \<Rightarrow> Inl err
                | Inr frontmatter \<Rightarrow>
                    Inr \<lparr>markdownFileInfo.Path = path,
                         markdownFileInfo.Size = FileInfo.Size info,
                         markdownFileInfo.Frontmatter = frontmatter\<rparr>)))"

text \<open>
  \<^verbatim>\<open>markdownFiles\<close> returns an \<^verbatim>\<open>iter.Seq\<close>: a function that is given the
  consumer's \<^verbatim>\<open>yield\<close> and pushes the descriptors into it. The consumer's state
  \<open>'st\<close> is threaded through; \<^verbatim>\<open>yield\<close> answers whether to go on. The function
  literal passed to \<^verbatim>\<open>fs.WalkDir\<close> is \<open>markdownFiles_fn\<close>. It reads the entry only
  after the error test, and \<^verbatim>\<open>fs.WalkDir\<close> passes a nil entry only together with an
  error, so its branch for a nil entry without an error is never taken.
\<close>

type_synonym ('v, 'st) yield = "'v \<Rightarrow> 'st \<Rightarrow> bool \<times> 'st"

definition markdownFiles_fn ::
  "'srv Libs \<Rightarrow> Server \<Rightarrow> (markdownFileInfo, 'st) yield \<Rightarrow> 'st WalkDirFunc" where
  "markdownFiles_fn L s yield path d err st =
     (case err of
        Some e \<Rightarrow> (Some e, st)
      | None \<Rightarrow>
          (case d of
             None \<Rightarrow> (Some (errorString ''invalid memory address or nil pointer dereference''), st)
           | Some d \<Rightarrow>
               if IsDir d then (None, st)
               else if Ext path \<noteq> ''.md'' then (None, st)
               else
                 (case readMarkdownInfo L s path d of
                    Inl e \<Rightarrow> (Some e, st)
                  | Inr info \<Rightarrow>
                      (case yield info st of
                         (False, st1) \<Rightarrow> (Some SkipAll, st1)
                       | (True, st1) \<Rightarrow> (None, st1)))))"

text \<open>The result of \<^verbatim>\<open>fs.WalkDir\<close> is not looked at.\<close>

definition markdownFiles :: "'srv Libs \<Rightarrow> Server \<Rightarrow> (markdownFileInfo, 'st) yield \<Rightarrow> 'st \<Rightarrow> 'st" where
  "markdownFiles L s yield st = snd (WalkDir (fs s) ''.'' (markdownFiles_fn L s yield) st)"

text \<open>\<^verbatim>\<open>slices.Collect\<close> appends every value and never stops the sequence.\<close>

definition Collect :: "(('v, 'v list) yield \<Rightarrow> 'v list \<Rightarrow> 'v list) \<Rightarrow> 'v list" where
  "Collect seq = seq (\<lambda>v acc. (True, acc @ [v])) []"

definition listMarkdownFiles :: "'srv Libs \<Rightarrow> Server \<Rightarrow> error + listMarkdownFilesResponse" where
  "listMarkdownFiles L s = Inr \<lparr>Files = Collect (markdownFiles L s)\<rparr>"


text \<open>
  The body of the \<^verbatim>\<open>range\<close> loop of \<^verbatim>\<open>listResourcesOption\<close> as the
  \<^verbatim>\<open>yield\<close> of the sequence: its state is the options collected so far and the
  error of a \<^verbatim>\<open>return nil, err\<close> inside the loop, which also stops the sequence.
\<close>

definition listResourcesOption_body ::
  "'srv Libs \<Rightarrow> (markdownFileInfo, mcp_ServerOption list \<times> error option) yield" where
  "listResourcesOption_body L f st =
     (case json_Marshal L (markdownFileInfo.Frontmatter f) of
        Inl err \<Rightarrow> (False, (fst st, Some err))
      | Inr desc \<Rightarrow>
          (True,
           (fst st @
              [WithResource
                 \<lparr>Resource.URI = ''file://'' @ markdownFileInfo.Path f,
                  Resource.Name = Base (markdownFileInfo.Path f),
                  Description = desc,
                  Resource.MimeType = ''text/markdown'',
                  Resource.Size = markdownFileInfo.Size f\<rparr>],
            snd st)))"

definition listResourcesOption :: "'srv Libs \<Rightarrow> Server \<Rightarrow> error + mcp_ServerOption list" where
  "listResourcesOption L s =
     (case markdownFiles L s (listResourcesOption_body L) ([], None) of
        (os, Some err) \<Rightarrow> Inl err
      | (os, None) \<Rightarrow> Inr os)"

definition listMarkdownFilesTool :: "Server \<Rightarrow> mcp_ServerOption" where
  "listMarkdownFilesTool s =
     WithTool (''list_'' @ name s @ ''_markdown_files'')
              (''List all markdown files managed by '' @ name s)"

definition readMarkdownFileTool :: "Server \<Rightarrow> mcp_ServerOption" where
  "readMarkdownFileTool s =
     WithTool (''read_'' @ name s @ ''_markdown_file'')
              (''Read a markdown file managed by '' @ name s)"

definition server :: "'srv Libs \<Rightarrow> Server \<Rightarrow> error + 'srv" where
  "server L s =
     (case listResourcesOption L s of
        Inl err \<Rightarrow> Inl err
      | Inr os \<Rightarrow>
          mcp_NewServer L (name s) (description s)
            ((os @ [WithResourceReader, listMarkdownFilesTool s, readMarkdownFileTool s]) @ opts s))"

definition New :: "'srv Libs \<Rightarrow> string \<Rightarrow> string \<Rightarrow> FS \<Rightarrow> ServerOption list \<Rightarrow> error + 'srv" where
  "New L n d fsys os =
     server L (fold (\<lambda>opt s. opt s) os
                 \<lparr>name = n, description = d, fs = fsys, opts = [], excludeFrontmatter = []\<rparr>)"

definition ReadResource :: "Server \<Rightarrow> string \<Rightarrow> error + TextResourceContents list" where
  "ReadResource s uri =
     (if \<not> HasPrefix uri ''file://'' then Inl (errorString (''unsupported scheme: '' @ uri))
      else
        (case ReadFile (fs s) (slice_from uri 7) of
           Inl err \<Rightarrow> Inl err
         | Inr content \<Rightarrow>
             Inr [\<lparr>TextResourceContents.URI = uri, Text = content,
                   TextResourceContents.MimeType = ''text/markdown''\<rparr>]))"

section \<open>Notions used to state the properties\<close>


text \<open>What \<^verbatim>\<open>readFrontmatter\<close> does with the result of the unmarshaler.\<close>

definition decoded_result :: "string list \<Rightarrow> error + frontmatter \<Rightarrow> error + frontmatter" where
  "decoded_result keys r =
     (case r of
        Inl err \<Rightarrow> Inl err
      | Inr decoded \<Rightarrow>
          (let frontmatter = fold (\<lambda>key m. go_delete m key) keys decoded in
           if go_len frontmatter = 0 then Inr None else Inr frontmatter))"

text \<open>
  The entries of a snapshot below a directory, each with its path, in the order of the
  walk; and among them the non-directory entries whose name ends in \<^verbatim>\<open>.md\<close>.
\<close>

fun entries_below :: "string \<Rightarrow> DirEntry list \<Rightarrow> (string \<times> DirEntry) list" where
  "entries_below dir [] = []"
| "entries_below dir (DirEntry n isDir info dirs rerr # ds) =
     (Join dir n, DirEntry n isDir info dirs rerr)
       # (if isDir then entries_below (Join dir n) dirs else [])
       @ entries_below dir ds"

definition is_markdown_entry :: "string \<times> DirEntry \<Rightarrow> bool" where
  "is_markdown_entry e = (\<not> IsDir (snd e) \<and> suffix ''.md'' (DirEntry.Name (snd e)))"

definition markdown_entries :: "FS \<Rightarrow> (string \<times> DirEntry) list" where
  "markdown_entries fsys =
     filter is_markdown_entry
       (if IsDir (root fsys) then entries_below ''.'' (ReadDir (root fsys)) else [])"

text \<open>Every directory of the snapshot can be listed.\<close>

fun listable :: "DirEntry \<Rightarrow> bool" where
  "listable (DirEntry n isDir info dirs rerr) =
     (isDir \<longrightarrow> rerr = None \<and> list_all listable dirs)"

text \<open>
  A resource of the catalog that stands for the descriptor \<open>f\<close>; and an option of the
  catalog that is the resource of a descriptor read from the filesystem.
\<close>

definition resource_for :: "'srv Libs \<Rightarrow> markdownFileInfo \<Rightarrow> mcp_ServerOption \<Rightarrow> bool" where
  "resource_for L f o' =
     (\<exists>r. o' = WithResource r
        \<and> Resource.URI r = ''file://'' @ markdownFileInfo.Path f
        \<and> Resource.Name r = Base (markdownFileInfo.Path f)
        \<and> json_Marshal L (markdownFileInfo.Frontmatter f) = Inr (Description r)
        \<and> Resource.MimeType r = ''text/markdown''
        \<and> Resource.Size r = markdownFileInfo.Size f)"

definition cataloged :: "'srv Libs \<Rightarrow> Server \<Rightarrow> mcp_ServerOption \<Rightarrow> bool" where
  "cataloged L s o' =
     (\<exists>r d f. o' = WithResource r \<and> readMarkdownInfo L s (markdownFileInfo.Path f) d = Inr f
        \<and> Resource.URI r = ''file://'' @ markdownFileInfo.Path f
        \<and> Resource.Name r = Base (markdownFileInfo.Path f)
        \<and> Resource.MimeType r = ''text/markdown''
        \<and> Resource.Size r = markdownFileInfo.Size f)"

text \<open>The scheme of an address: what stands before its first colon.\<close>

definition scheme_of :: "string \<Rightarrow> string" where
  "scheme_of uri = takeWhile (\<lambda>c. c \<noteq> CHR '':'') uri"

section \<open>The in-memory filesystem \<^verbatim>\<open>fstest.MapFS\<close>\<close>

text \<open>
  The tests of the repository serve a \<^verbatim>\<open>fstest.MapFS\<close>: a map from paths to files,
  in which a directory need not be a key (it exists as soon as a key lies below it).
  Its \<^verbatim>\<open>Open\<close> first asks \<^verbatim>\<open>fs.ValidPath\<close>, which wants valid UTF-8
  (\<^verbatim>\<open>utf8.ValidString\<close>: the lead byte fixes the length of the sequence and the range
  of the second byte) and, unless the path is \<^verbatim>\<open>.\<close>, elements between slashes that
  are neither empty nor \<^verbatim>\<open>.\<close> nor \<^verbatim>\<open>..\<close>.
\<close>

definition in_range :: "nat \<Rightarrow> nat \<Rightarrow> char \<Rightarrow> bool" where
  "in_range lo hi c = (lo \<le> of_char c \<and> (of_char c :: nat) \<le> hi)"

fun ValidString :: "string \<Rightarrow> bool" where
  "ValidString [] = True"
| "ValidString (c # s) =
     (if in_range 0x00 0x7F c then ValidString s
      else if in_range 0xC2 0xDF c then
        (case s of c1 # r \<Rightarrow> in_range 0x80 0xBF c1 \<and> ValidString r | _ \<Rightarrow> False)
      else if in_range 0xE0 0xEF c then
        (case s of
           c1 # c2 # r \<Rightarrow>
             (if in_range 0xE0 0xE0 c then in_range 0xA0 0xBF c1
              else if in_range 0xED 0xED c then in_range 0x80 0x9F c1
              else in_range 0x80 0xBF c1)
             \<and> in_range 0x80 0xBF c2 \<and> ValidString r
         | _ \<Rightarrow> False)
      else if in_range 0xF0 0xF4 c then
        (case s of
           c1 # c2 # c3 # r \<Rightarrow>
             (if in_range 0xF0 0xF0 c then in_range 0x90 0xBF c1
              else if in_range 0xF4 0xF4 c then in_range 0x80 0x8F c1
              else in_range 0x80 0xBF c1)
             \<and> in_range 0x80 0xBF c2 \<and> in_range 0x80 0xBF c3 \<and> ValidString r
         | _ \<Rightarrow> False)
      else False)"

text \<open>
  The loop of \<^verbatim>\<open>fs.ValidPath\<close> over the elements of the path: \<open>elem\<close> is the
  element read so far; at a slash and at the end it must be a proper name.
\<close>

fun ValidPath_scan :: "string \<Rightarrow> string \<Rightarrow> bool" where
  "ValidPath_scan elem [] = (elem \<noteq> [] \<and> elem \<noteq> ''.'' \<and> elem \<noteq> ''..'')"
| "ValidPath_scan elem (c # s) =
     (if c = CHR ''/''
      then (elem \<noteq> [] \<and> elem \<noteq> ''.'' \<and> elem \<noteq> ''..'') \<and> ValidPath_scan [] s
      else ValidPath_scan (elem @ [c]) s)"

definition ValidPath :: "string \<Rightarrow> bool" where
  "ValidPath path = (ValidString path \<and> (path = ''.'' \<or> ValidPath_scan [] path))"

text \<open>
  A \<^verbatim>\<open>MapFile\<close> has its bytes and its mode, of which \<^verbatim>\<open>Open\<close> looks at the bit
  \<^verbatim>\<open>fs.ModeDir\<close> only; symbolic links are left out. The map is an association list
  (a Go map has each key once). \<^verbatim>\<open>Open\<close> answers an invalid path with a
  \<^verbatim>\<open>PathError\<close> of class \<^verbatim>\<open>ErrNotExist\<close>, a key that is not a directory with an
  ordinary file, and otherwise a directory, unless the path is neither \<^verbatim>\<open>.\<close> nor a
  key nor above a key: then it does not exist. Reading a directory fails with
  \<^verbatim>\<open>read\<close>, \<^verbatim>\<open>ErrInvalid\<close>.
\<close>

record MapFile =
  Data :: bytes
  ModeDir :: bool

type_synonym MapFS = "(string \<times> MapFile) list"

datatype File = openMapFile string MapFile | mapDir string MapFile

definition MapFS_Open :: "MapFS \<Rightarrow> string \<Rightarrow> error + File" where
  "MapFS_Open fsys path =
     (if \<not> ValidPath path then Inl (PathError ''open'' path ErrNotExist)
      else
        (case map_of fsys path of
           Some file \<Rightarrow>
             if \<not> ModeDir file then Inr (openMapFile path file) else Inr (mapDir path file)
         | None \<Rightarrow>
             if path \<noteq> ''.'' \<and> \<not> (\<exists>fname \<in> set (map fst fsys). HasPrefix fname (path @ ''/''))
             then Inl (PathError ''open'' path ErrNotExist)
             else Inr (mapDir path \<lparr>Data = [], ModeDir = True\<rparr>)))"

definition MapFS_ReadFile :: "MapFS \<Rightarrow> string \<Rightarrow> error + bytes" where
  "MapFS_ReadFile fsys path =
     (case MapFS_Open fsys path of
        Inl err \<Rightarrow> Inl err
      | Inr (openMapFile p file) \<Rightarrow> Inr (Data file)
      | Inr (mapDir p file) \<Rightarrow> Inl (PathError ''read'' p ErrInvalid))"

definition MapFS_Stat :: "MapFS \<Rightarrow> string \<Rightarrow> error + FileInfo" where
  "MapFS_Stat fsys path =
     (case MapFS_Open fsys path of
        Inl err \<Rightarrow> Inl err
      | Inr (openMapFile p file) \<Rightarrow> Inr \<lparr>FileInfo.Size = len (Data file)\<rparr>
      | Inr (mapDir p file) \<Rightarrow> Inr \<lparr>FileInfo.Size = len (Data file)\<rparr>)"

text \<open>
  What a valid path names in such a filesystem: a file (a key whose file is not a
  directory), or a directory (the root, a key whose file is a directory, or a path above
  some key).
\<close>

definition names_file :: "MapFS \<Rightarrow> string \<Rightarrow> bool" where
  "names_file fsys path =
     (ValidPath path \<and> (case map_of fsys path of Some file \<Rightarrow> \<not> ModeDir file | None \<Rightarrow> False))"


section \<open>Sample collaborators and filesystems\<close>

text \<open>
  Stand-ins for the libraries, used at concrete inputs only: unmarshalers that know the
  blocks of the examples (with the results that the tests of the repository record for
  the YAML and TOML libraries) and reject every other block, an encoder for maps with a
  title, and a protocol server that is the triple it was built from.
\<close>

definition table_Unmarshal :: "string \<Rightarrow> (bytes \<times> frontmatter) list \<Rightarrow> bytes \<Rightarrow> error + frontmatter" where
  "table_Unmarshal msg table data =
     (case map_of table data of None \<Rightarrow> Inl (LibError msg) | Some m \<Rightarrow> Inr m)"

definition sample_yaml_table :: "(bytes \<times> frontmatter) list" where
  "sample_yaml_table =
     [('''', None),
      (''title: T'', Some (fmupd ''title'' (String ''T'') fmempty)),
      (''value: 123'', Some (fmupd ''value'' (Uint64 123) fmempty)),
      (''title: File 2'', Some (fmupd ''title'' (String ''File 2'') fmempty))]"

definition sample_toml_table :: "(bytes \<times> frontmatter) list" where
  \<open>sample_toml_table =
     [('''', None),
      (''title = "T"'', Some (fmupd ''title'' (String ''T'') fmempty)),
      (''value = 456'', Some (fmupd ''value'' (Int64 456) fmempty))]\<close>

definition sample_json :: "frontmatter \<Rightarrow> error + bytes" where
  \<open>sample_json m =
     (case m of
        None \<Rightarrow> Inr ''null''
      | Some f \<Rightarrow>
          (case fmlookup f ''title'' of
             Some (String t) \<Rightarrow> Inr (''{"title":"'' @ t @ ''"}'')
           | _ \<Rightarrow> Inl (LibError ''json: unsupported value'')))\<close>

definition sample_libs :: "(string \<times> string \<times> mcp_ServerOption list) Libs" where
  "sample_libs =
     \<lparr>yaml_Unmarshal = table_Unmarshal ''yaml: syntax error'' sample_yaml_table,
      toml_Unmarshal = table_Unmarshal ''toml: syntax error'' sample_toml_table,
      json_Marshal = sample_json,
      mcp_NewServer = (\<lambda>n d os. Inr (n, d, os))\<rparr>"

text \<open>
  The entries of an in-memory filesystem: a regular file, an explicit directory; and the
  directory entries that the walk sees for them, with the size that such a filesystem
  reports (the number of bytes).
\<close>

definition regular :: "bytes \<Rightarrow> MapFile" where
  "regular data = \<lparr>Data = data, ModeDir = False\<rparr>"

definition directory :: MapFile where
  "directory = \<lparr>Data = [], ModeDir = True\<rparr>"

definition file_entry :: "string \<Rightarrow> bytes \<Rightarrow> DirEntry" where
  "file_entry n data = DirEntry n False (Inr \<lparr>FileInfo.Size = len data\<rparr>) [] None"

definition dir_entry :: "string \<Rightarrow> DirEntry list \<Rightarrow> DirEntry" where
  "dir_entry n ds = DirEntry n True (Inr \<lparr>FileInfo.Size = 0\<rparr>) ds None"

definition doc_file2 :: bytes where
  "doc_file2 = ''---\<newline>title: File 2\<newline>---\<newline>content2''"

definition doc_titled :: bytes where
  "doc_titled = ''---\<newline>title: T\<newline>---\<newline>Body''"

definition doc_invalid :: bytes where
  "doc_invalid = ''---\<newline>title: Test Invalid YAML\<newline>value: [1, 2\<newline>---\<newline>Regular content''"

text \<open>
  A filesystem with two documents, a directory named like a document and a file of
  another kind: the map, and the tree of its entries in the order of the walk.
\<close>

definition sample_files :: MapFS where
  "sample_files =
     [(''another.md'', regular ''content4''),
      (''dir/file2.md'', regular doc_file2),
      (''fake.md'', directory),
      (''skip.txt'', regular ''text'')]"

definition sample_fs :: FS where
  "sample_fs =
     \<lparr>root = dir_entry ''.''
               [file_entry ''another.md'' ''content4'',
                dir_entry ''dir'' [file_entry ''file2.md'' doc_file2],
                dir_entry ''fake.md'' [],
                file_entry ''skip.txt'' ''text''],
      ReadFile = MapFS_ReadFile sample_files,
      Stat = MapFS_Stat sample_files\<rparr>"

definition sample_server :: Server where
  "sample_server =
     \<lparr>name = ''docs'', description = ''Markdown Documents Server'', fs = sample_fs,
      opts = [], excludeFrontmatter = []\<rparr>"

text \<open>Three documents; the frontmatter of the second is malformed YAML.\<close>

definition broken_files :: MapFS where
  "broken_files =
     [(''a.md'', regular doc_titled), (''b.md'', regular doc_invalid),
      (''c.md'', regular ''content'')]"

definition broken_fs :: FS where
  "broken_fs =
     \<lparr>root = dir_entry ''.''
               [file_entry ''a.md'' doc_titled,
                file_entry ''b.md'' doc_invalid,
                file_entry ''c.md'' ''content''],
      ReadFile = MapFS_ReadFile broken_files,
      Stat = MapFS_Stat broken_files\<rparr>"

definition broken_server :: Server where
  "broken_server =
     \<lparr>name = ''docs'', description = ''Markdown Documents Server'', fs = broken_fs,
      opts = [], excludeFrontmatter = []\<rparr>"

section \<open>Facts about the library functions\<close>

lemma fmdom_fempty_iff: "fmdom m = {||} \<longleftrightarrow> m = fmempty"
proof
  assume a: "fmdom m = {||}"
  have "fmlookup m x = None" for x
    using a by (simp add: fmdom_notD)
  then show "m = fmempty" by (intro fmap_ext) simp
qed simp

lemma go_len_0_iff: "go_len m = 0 \<longleftrightarrow> m = None \<or> m = Some fmempty"
  by (auto simp add: go_len_def fmdom_fempty_iff split: option.splits)



lemma Index_ge: "Index s sep = -1 \<or> 0 \<le> Index s sep"
  by (induction s) (auto simp: Let_def)

text \<open>\<^verbatim>\<open>bytes.Index\<close> answers \<open>-1\<close> exactly when the separator does not occur.\<close>

lemma Index_none: "Index s sep = -1 \<longleftrightarrow> \<not> sublist sep s"
proof (induction s)
  case Nil
  then show ?case by auto
next
  case (Cons c s)
  have "0 \<le> Index s sep \<or> Index s sep = -1" using Index_ge[of s sep] by auto
  then show ?case using Cons
    by (auto simp: Let_def sublist_Cons_right)
qed

lemma Index_found:
  "prefix sep (drop n s) \<Longrightarrow> n \<le> length s \<Longrightarrow> (\<forall>j<n. \<not> prefix sep (drop j s))
     \<Longrightarrow> Index s sep = int n"
proof (induction s arbitrary: n)
  case Nil
  then show ?case by simp
next
  case (Cons c s)
  show ?case
  proof (cases n)
    case 0
    with Cons.prems show ?thesis by simp
  next
    case (Suc m)
    have np: "\<not> prefix sep (c # s)" using Cons.prems(3) Suc by (metis drop0 zero_less_Suc)
    have a: "prefix sep (drop m s)" using Cons.prems(1) Suc by simp
    have b: "m \<le> length s" using Cons.prems(2) Suc by simp
    have c: "\<forall>j<m. \<not> prefix sep (drop j s)"
    proof (intro allI impI)
      fix j assume "j < m"
      then have "\<not> prefix sep (drop (Suc j) (c # s))" using Cons.prems(3) Suc by blast
      then show "\<not> prefix sep (drop j s)" by simp
    qed
    have "Index s sep = int m" using Cons.IH[OF a b c] .
    then show ?thesis using np Suc by (simp add: Let_def)
  qed
qed

text \<open>
  The first occurrence: when the separator does not start anywhere inside \<open>xs\<close>, its
  occurrence right after \<open>xs\<close> is the one \<^verbatim>\<open>bytes.Index\<close> finds.
\<close>

lemma Index_first:
  assumes "sep \<noteq> []" "\<not> sublist sep (xs @ butlast sep)"
  shows "Index (xs @ sep @ ys) sep = int (length xs)"
proof (rule Index_found)
  show "prefix sep (drop (length xs) (xs @ sep @ ys))" by simp
  show "length xs \<le> length (xs @ sep @ ys)" by simp
  show "\<forall>j<length xs. \<not> prefix sep (drop j (xs @ sep @ ys))"
  proof (intro allI impI notI)
    fix j assume j: "j < length xs" and p: "prefix sep (drop j (xs @ sep @ ys))"
    let ?q = "drop j xs @ butlast sep"
    have w: "drop j (xs @ sep @ ys) = ?q @ ([last sep] @ ys)"
      using j assms(1) by simp
    have "prefix ?q (drop j (xs @ sep @ ys))" unfolding w by simp
    moreover have "length sep \<le> length ?q" using j by simp
    ultimately have "prefix sep ?q" using p prefix_length_prefix by blast
    then have "sublist sep ?q" by (rule prefix_imp_sublist)
    then have "sublist sep (take j xs @ ?q)" by (simp add: sublist_append)
    moreover have "take j xs @ ?q = xs @ butlast sep" by simp
    ultimately show False using assms(2) by simp
  qed
qed

lemma Index_bounds:
  "Index s sep \<noteq> -1 \<Longrightarrow> 0 \<le> Index s sep \<and> Index s sep + len sep \<le> len s"
proof (induction s)
  case Nil
  then show ?case by (auto simp: len_def split: if_splits)
next
  case (Cons c s)
  then show ?case
    by (auto simp: Let_def len_def split: if_splits dest: prefix_length_le)
qed

lemma Index_prefix: "prefix sep s \<Longrightarrow> Index s sep = 0"
  by (cases s) auto

text \<open>
  The slice expressions of \<^verbatim>\<open>readFrontmatter\<close> are in range: with the delimiter a
  prefix of the content, \<open>start\<close> is 0, the rest starts inside the content, and a
  closing delimiter found at \<open>end\<close> ends inside it.
\<close>

lemma readFrontmatter_slices_in_range:
  assumes "HasPrefix content d" "start = Index content d"
    and "end' = Index (slice_from content (start + len d)) sep" "end' \<noteq> -1"
  shows "start = 0 \<and> start + len d \<le> len content
           \<and> 0 \<le> end' \<and> start + len d + end' \<le> len content"
proof -
  have s: "start = 0" using assms(1,2) by (simp add: HasPrefix_def Index_prefix)
  have l: "len d \<le> len content"
    using assms(1) by (simp add: HasPrefix_def len_def prefix_length_le)
  have "0 \<le> end' \<and> end' + len sep \<le> len (slice_from content (start + len d))"
    using Index_bounds assms(3,4) by blast
  moreover have "len (slice_from content (start + len d)) = len content - len d"
    using s l by (simp add: slice_from_def len_def)
  moreover have "0 \<le> len sep" by (simp add: len_def)
  ultimately show ?thesis using s l by simp
qed

section \<open>Facts about the frontmatter extractor\<close>

lemmas trim_eval =
  TrimSpace_def TrimLeft_def TrimRight_def spaceWidth_def asciiSpace_def unicodeSpaces_def

lemmas sample_eval =
  sample_libs_def table_Unmarshal_def sample_yaml_table_def sample_toml_table_def

lemma yaml_first: "readFrontmatter L keys content =
   readFrontmatter_range keys
     [\<lparr>Unmarshaler = yaml_Unmarshal L, Delimiter = ''---\<newline>''\<rparr>,
      \<lparr>Unmarshaler = toml_Unmarshal L, Delimiter = ''+++\<newline>''\<rparr>] (TrimSpace content)"
  by (simp add: readFrontmatter_def unmarshalers_def)

lemma rf_skip:
  "\<not> prefix (Delimiter u) t \<Longrightarrow>
     readFrontmatter_range keys (u # us) t = readFrontmatter_range keys us t"
  by (simp add: HasPrefix_def)

lemma rf_noclose:
  assumes "\<not> sublist (''\<newline>'' @ Delimiter u) (drop (length (Delimiter u)) t)"
  shows "readFrontmatter_range keys (u # us) t = readFrontmatter_range keys us t"
proof (cases "prefix (Delimiter u) t")
  case True
  then have s: "Index t (Delimiter u) = 0" by (rule Index_prefix)
  have "Index (drop (length (Delimiter u)) t) (CHR ''\<newline>'' # Delimiter u) = -1"
    using assms by (simp add: Index_none)
  then show ?thesis using True s
    by (simp add: HasPrefix_def slice_from_def len_def Let_def)
next
  case False
  then show ?thesis by (rule rf_skip)
qed

lemma rf_decode:
  assumes t: "t = Delimiter u @ block @ (''\<newline>'' @ Delimiter u) @ body"
    and first: "\<not> sublist (''\<newline>'' @ Delimiter u) (block @ butlast (''\<newline>'' @ Delimiter u))"
  shows "readFrontmatter_range keys (u # us) t = decoded_result keys (Unmarshaler u block)"
proof -
  let ?d = "Delimiter u"
  have p: "prefix ?d t" using t by simp
  then have s: "Index t ?d = 0" by (rule Index_prefix)
  have r: "drop (length ?d) t = block @ (''\<newline>'' @ ?d) @ body" using t by simp
  have e: "Index (block @ (''\<newline>'' @ ?d) @ body) (''\<newline>'' @ ?d) = int (length block)"
    using first by (intro Index_first) simp_all
  have b: "take (length block) (drop (length ?d) t) = block" using r by simp
  show ?thesis
    using p s r e b
    by (simp add: HasPrefix_def slice_from_def slice_def len_def Let_def decoded_result_def)
qed

lemma rf_never_empty: "readFrontmatter_range keys us t \<noteq> Inr (Some fmempty)"
proof (induction us)
  case Nil
  then show ?case by simp
next
  case (Cons u us)
  then show ?case
    by (auto simp: Let_def go_len_0_iff split: sum.splits)
qed

text \<open>The extractor never returns an allocated map without entries.\<close>

lemma readFrontmatter_never_empty_map: "readFrontmatter L keys content \<noteq> Inr (Some fmempty)"
  unfolding readFrontmatter_def by (rule rf_never_empty)

text \<open>
  With an opening delimiter, a block and the first closing delimiter after it, the
  extractor hands exactly the block to the unmarshaler of that notation.
\<close>

lemma readFrontmatter_decoded:
  assumes u: "u \<in> set (unmarshalers L)"
    and t: "TrimSpace content = Delimiter u @ block @ ''\<newline>'' @ Delimiter u @ body"
    and first: "\<not> sublist (''\<newline>'' @ Delimiter u) (block @ butlast (''\<newline>'' @ Delimiter u))"
  shows "readFrontmatter L keys content = decoded_result keys (Unmarshaler u block)"
proof -
  let ?y = "\<lparr>Unmarshaler = yaml_Unmarshal L, Delimiter = ''---\<newline>''\<rparr>"
  let ?t = "\<lparr>Unmarshaler = toml_Unmarshal L, Delimiter = ''+++\<newline>''\<rparr>"
  have t': "TrimSpace content = Delimiter u @ block @ (''\<newline>'' @ Delimiter u) @ body"
    using t by simp
  from u have "u = ?y \<or> u = ?t" by (auto simp: unmarshalers_def)
  then show ?thesis
  proof
    assume "u = ?y"
    then show ?thesis
      using rf_decode[OF t' first, of keys "[?t]"] by (simp add: yaml_first)
  next
    assume ut: "u = ?t"
    then have "\<not> prefix (Delimiter ?y) (TrimSpace content)" using t by simp
    then have "readFrontmatter_range keys [?y, ?t] (TrimSpace content)
       = readFrontmatter_range keys [?t] (TrimSpace content)"
      by (rule rf_skip)
    then show ?thesis
      using rf_decode[OF t' first, of keys "[]"] ut by (simp add: yaml_first)
  qed
qed

lemma readFrontmatter_no_close:
  assumes "\<forall>u \<in> set (unmarshalers L). prefix (Delimiter u) (TrimSpace content) \<longrightarrow>
             \<not> sublist (''\<newline>'' @ Delimiter u) (drop (length (Delimiter u)) (TrimSpace content))"
  shows "readFrontmatter L keys content = Inr None"
proof -
  have step: "readFrontmatter_range keys (u # us) (TrimSpace content)
        = readFrontmatter_range keys us (TrimSpace content)"
    if "u \<in> set (unmarshalers L)" for u us
  proof (cases "prefix (Delimiter u) (TrimSpace content)")
    case True
    with assms that show ?thesis by (intro rf_noclose) blast
  next
    case False
    then show ?thesis by (rule rf_skip)
  qed
  let ?y = "\<lparr>Unmarshaler = yaml_Unmarshal L, Delimiter = ''---\<newline>''\<rparr>"
  let ?t = "\<lparr>Unmarshaler = toml_Unmarshal L, Delimiter = ''+++\<newline>''\<rparr>"
  have "readFrontmatter L keys content
          = readFrontmatter_range keys [?y, ?t] (TrimSpace content)"
    by (rule yaml_first)
  also have "\<dots> = readFrontmatter_range keys [?t] (TrimSpace content)"
    by (rule step) (simp add: unmarshalers_def)
  also have "\<dots> = readFrontmatter_range keys [] (TrimSpace content)"
    by (rule step) (simp add: unmarshalers_def)
  finally show ?thesis by simp
qed

text \<open>
  A closing delimiter needs its newline: after bytes that hold no closing delimiter, the
  delimiter line without its newline does not complete one.
\<close>

lemma no_close_at_end:
  assumes "d = ''---\<newline>'' \<or> d = ''+++\<newline>''" "\<not> sublist (''\<newline>'' @ d) pre"
  shows "\<not> sublist (''\<newline>'' @ d) (pre @ butlast d)"
proof
  assume "sublist (''\<newline>'' @ d) (pre @ butlast d)"
  then consider "sublist (''\<newline>'' @ d) (butlast d)"
    | xs1 xs2 where "''\<newline>'' @ d = xs1 @ xs2" "suffix xs1 pre" "prefix xs2 (butlast d)"
    using assms(2) by (auto simp: sublist_append)
  then show False
  proof cases
    case 1
    then have "length (''\<newline>'' @ d) \<le> length (butlast d)" by (rule sublist_length_le)
    then show False by simp
  next
    case 2
    have "xs2 = []"
    proof (rule ccontr)
      assume ne: "xs2 \<noteq> []"
      then have "last xs2 = last (''\<newline>'' @ d)" using 2(1) by (metis last_appendR)
      then have l: "last xs2 = CHR ''\<newline>''" using assms(1) by auto
      have "set xs2 \<subseteq> set (butlast d)" using 2(3) by (rule set_mono_prefix)
      then have "CHR ''\<newline>'' \<in> set (butlast d)" using l ne last_in_set by fastforce
      then show False using assms(1) by auto
    qed
    then have "suffix (''\<newline>'' @ d) pre" using 2 by simp
    then show False using assms(2) suffix_imp_sublist by blast
  qed
qed

section \<open>Properties of the frontmatter extractor\<close>

text \<open>
  Claim C3. When the trimmed input starts with the opening delimiter of a notation, a
  block follows, and the first closing delimiter after the opening one ends the block,
  then an error of that notation's unmarshaler on the block is the result of the
  extraction: no mapping is returned, and the other notation is not tried, whatever its
  unmarshaler would do.
\<close>

theorem decode_error_is_returned:
  assumes "u \<in> set (unmarshalers L)"
    and "TrimSpace content = Delimiter u @ block @ ''\<newline>'' @ Delimiter u @ body"
    and "\<not> sublist (''\<newline>'' @ Delimiter u) (block @ butlast (''\<newline>'' @ Delimiter u))"
    and "Unmarshaler u block = Inl err"
  shows "readFrontmatter L keys content = Inl err"
  using readFrontmatter_decoded[OF assms(1,2,3), of keys] assms(4)
  by (simp add: decoded_result_def)

theorem decode_error_is_returned_witness:
  "\<lparr>Unmarshaler = yaml_Unmarshal sample_libs, Delimiter = ''---\<newline>''\<rparr>
      \<in> set (unmarshalers sample_libs)
   \<and> TrimSpace doc_invalid
       = ''---\<newline>'' @ ''title: Test Invalid YAML\<newline>value: [1, 2'' @ ''\<newline>''
           @ ''---\<newline>'' @ ''Regular content''
   \<and> \<not> sublist (''\<newline>'' @ ''---\<newline>'')
         (''title: Test Invalid YAML\<newline>value: [1, 2'' @ butlast (''\<newline>'' @ ''---\<newline>''))
   \<and> yaml_Unmarshal sample_libs ''title: Test Invalid YAML\<newline>value: [1, 2''
       = Inl (LibError ''yaml: syntax error'')
   \<and> readFrontmatter sample_libs [] doc_invalid = Inl (LibError ''yaml: syntax error'')"
proof -
  let ?u = "\<lparr>Unmarshaler = yaml_Unmarshal sample_libs, Delimiter = ''---\<newline>''\<rparr>"
  let ?block = "''title: Test Invalid YAML\<newline>value: [1, 2''"
  have h1: "?u \<in> set (unmarshalers sample_libs)" by (simp add: unmarshalers_def)
  have h2: "TrimSpace doc_invalid
     = Delimiter ?u @ ?block @ ''\<newline>'' @ Delimiter ?u @ ''Regular content''"
    by (simp add: trim_eval doc_invalid_def)
  have h3: "\<not> sublist (''\<newline>'' @ Delimiter ?u) (?block @ butlast (''\<newline>'' @ Delimiter ?u))"
    by (simp add: sublist_code(3))
  have h4: "Unmarshaler ?u ?block = Inl (LibError ''yaml: syntax error'')"
    by (simp add: sample_eval)
  show ?thesis
    using decode_error_is_returned[OF h1 h2 h3 h4, of "[]"] h1 h2 h3 h4 by simp
qed

text \<open>
  Claim C5. When no notation's opening delimiter starts the trimmed content (the empty
  input included), and when an opening delimiter starts it but no closing delimiter (a
  newline followed by the delimiter line) occurs after it, the extraction returns the nil
  map and no error: for every notation, either its delimiter is not a prefix of the
  trimmed content or the closing delimiter does not occur in the rest.
\<close>

theorem no_frontmatter_is_absent:
  assumes "\<forall>u \<in> set (unmarshalers L). prefix (Delimiter u) (TrimSpace content) \<longrightarrow>
             \<not> sublist (''\<newline>'' @ Delimiter u) (drop (length (Delimiter u)) (TrimSpace content))"
  shows "readFrontmatter L keys content = Inr None"
  using assms by (rule readFrontmatter_no_close)

theorem no_frontmatter_is_absent_witness:
  "\<not> prefix ''---\<newline>'' (TrimSpace '''') \<and> \<not> prefix ''+++\<newline>'' (TrimSpace '''')
   \<and> readFrontmatter sample_libs [] '''' = Inr None
   \<and> prefix ''---\<newline>'' (TrimSpace ''---\<newline>title: T\<newline>Body'')
   \<and> \<not> sublist (''\<newline>'' @ ''---\<newline>'') (drop 4 (TrimSpace ''---\<newline>title: T\<newline>Body''))
   \<and> \<not> prefix ''+++\<newline>'' (TrimSpace ''---\<newline>title: T\<newline>Body'')
   \<and> readFrontmatter sample_libs [] ''---\<newline>title: T\<newline>Body'' = Inr None"
proof -
  have e: "TrimSpace '''' = ''''"
    and t: "TrimSpace ''---\<newline>title: T\<newline>Body'' = ''---\<newline>title: T\<newline>Body''"
    by (simp_all add: trim_eval)
  have h1: "\<forall>u \<in> set (unmarshalers sample_libs). prefix (Delimiter u) (TrimSpace '''') \<longrightarrow>
       \<not> sublist (''\<newline>'' @ Delimiter u) (drop (length (Delimiter u)) (TrimSpace ''''))"
    by (simp add: unmarshalers_def e)
  have h2: "\<forall>u \<in> set (unmarshalers sample_libs).
         prefix (Delimiter u) (TrimSpace ''---\<newline>title: T\<newline>Body'') \<longrightarrow>
         \<not> sublist (''\<newline>'' @ Delimiter u)
              (drop (length (Delimiter u)) (TrimSpace ''---\<newline>title: T\<newline>Body''))"
    by (simp add: unmarshalers_def t sublist_code(3))
  show ?thesis
    using no_frontmatter_is_absent[OF h1, of "[]"] no_frontmatter_is_absent[OF h2, of "[]"]
    by (simp add: e t sublist_code(3))
qed

text \<open>
  Claim C10. When the trimmed content is an opening delimiter, then bytes that hold no
  closing delimiter, then the delimiter line without a newline after it (the closing line
  is the end of the trimmed content), the extraction returns the nil map and no error:
  the close at the end of the input is not found, and the other notation does not match.
  The inputs of the claim are the case where the bytes in between are a block and a
  newline.
\<close>

theorem close_at_end_is_not_found:
  assumes u: "u \<in> set (unmarshalers L)"
    and t: "TrimSpace content = Delimiter u @ pre @ butlast (Delimiter u)"
    and inner: "\<not> sublist (''\<newline>'' @ Delimiter u) pre"
  shows "readFrontmatter L keys content = Inr None"
proof (rule readFrontmatter_no_close, intro ballI impI)
  fix v assume v: "v \<in> set (unmarshalers L)" and p: "prefix (Delimiter v) (TrimSpace content)"
  have du: "Delimiter u = ''---\<newline>'' \<or> Delimiter u = ''+++\<newline>''"
    using u by (auto simp: unmarshalers_def)
  have dv: "Delimiter v = ''---\<newline>'' \<or> Delimiter v = ''+++\<newline>''"
    using v by (auto simp: unmarshalers_def)
  have "Delimiter v = Delimiter u" using du dv p t by auto
  moreover have "\<not> sublist (''\<newline>'' @ Delimiter u) (pre @ butlast (Delimiter u))"
    using du inner by (rule no_close_at_end)
  ultimately show "\<not> sublist (''\<newline>'' @ Delimiter v)
                       (drop (length (Delimiter v)) (TrimSpace content))"
    using t by simp
qed

theorem close_at_end_is_not_found_witness:
  "\<lparr>Unmarshaler = yaml_Unmarshal sample_libs, Delimiter = ''---\<newline>''\<rparr>
      \<in> set (unmarshalers sample_libs)
   \<and> TrimSpace ''---\<newline>title: T\<newline>---\<newline>''
       = ''---\<newline>'' @ ''title: T\<newline>'' @ butlast ''---\<newline>''
   \<and> \<not> sublist (''\<newline>'' @ ''---\<newline>'') ''title: T\<newline>''
   \<and> readFrontmatter sample_libs [] ''---\<newline>title: T\<newline>---\<newline>'' = Inr None
   \<and> TrimSpace ''---\<newline>title: T\<newline>---''
       = ''---\<newline>'' @ ''title: T\<newline>'' @ butlast ''---\<newline>''
   \<and> readFrontmatter sample_libs [] ''---\<newline>title: T\<newline>---'' = Inr None"
proof -
  let ?u = "\<lparr>Unmarshaler = yaml_Unmarshal sample_libs, Delimiter = ''---\<newline>''\<rparr>"
  have h1: "?u \<in> set (unmarshalers sample_libs)" by (simp add: unmarshalers_def)
  have h2: "TrimSpace ''---\<newline>title: T\<newline>---\<newline>''
      = Delimiter ?u @ ''title: T\<newline>'' @ butlast (Delimiter ?u)"
    by (simp add: trim_eval)
  have h2': "TrimSpace ''---\<newline>title: T\<newline>---''
      = Delimiter ?u @ ''title: T\<newline>'' @ butlast (Delimiter ?u)"
    by (simp add: trim_eval)
  have h3: "\<not> sublist (''\<newline>'' @ Delimiter ?u) ''title: T\<newline>''"
    by (simp add: sublist_code(3))
  show ?thesis
    using close_at_end_is_not_found[OF h1 h2 h3, of "[]"]
      close_at_end_is_not_found[OF h1 h2' h3, of "[]"] h1 h2 h2' h3
    by simp
qed



text \<open>
  The input of the claim with nothing at all between the two delimiter lines has no
  newline before the second delimiter line: the close is not found, and the result is
  the nil map as well.
\<close>

lemma adjacent_delimiters_with_body_are_absent:
  "readFrontmatter L keys ''---\<newline>---\<newline>Body'' = Inr None"
  by (simp add: readFrontmatter_def unmarshalers_def trim_eval HasPrefix_def slice_from_def
        len_def)

text \<open>
  Claim C1. With unmarshalers that decode the four blocks as the YAML and the TOML
  library do (a title as a string; \<open>123\<close> in YAML as \<^verbatim>\<open>uint64\<close>, \<open>456\<close> in TOML as
  \<^verbatim>\<open>int64\<close>), the extractor hands exactly the text between the delimiters to the
  unmarshaler of the notation and returns its mapping unchanged, so that the unsigned
  value stays unsigned and the signed one signed.
\<close>

theorem frontmatter_scenarios:
  assumes "yaml_Unmarshal L ''title: T'' = Inr (Some (fmupd ''title'' (String ''T'') fmempty))"
    and \<open>toml_Unmarshal L ''title = "T"'' = Inr (Some (fmupd ''title'' (String ''T'') fmempty))\<close>
    and "yaml_Unmarshal L ''value: 123'' = Inr (Some (fmupd ''value'' (Uint64 123) fmempty))"
    and "toml_Unmarshal L ''value = 456'' = Inr (Some (fmupd ''value'' (Int64 456) fmempty))"
  shows \<open>readFrontmatter L [] ''---\<newline>title: T\<newline>---\<newline>Body''
             = Inr (Some (fmupd ''title'' (String ''T'') fmempty))
         \<and> readFrontmatter L [] ''+++\<newline>title = "T"\<newline>+++\<newline>Body''
             = Inr (Some (fmupd ''title'' (String ''T'') fmempty))
         \<and> readFrontmatter L [] ''---\<newline>value: 123\<newline>---\<newline>Body''
             = Inr (Some (fmupd ''value'' (Uint64 123) fmempty))
         \<and> readFrontmatter L [] ''+++\<newline>value = 456\<newline>+++\<newline>Body''
             = Inr (Some (fmupd ''value'' (Int64 456) fmempty))
         \<and> Uint64 123 \<noteq> Int64 123\<close>
  using assms
  by (simp add: readFrontmatter_def unmarshalers_def trim_eval HasPrefix_def
        slice_def slice_from_def len_def go_len_0_iff)

theorem frontmatter_scenarios_witness:
  \<open>yaml_Unmarshal sample_libs ''title: T'' = Inr (Some (fmupd ''title'' (String ''T'') fmempty))
   \<and> toml_Unmarshal sample_libs ''title = "T"'' = Inr (Some (fmupd ''title'' (String ''T'') fmempty))
   \<and> yaml_Unmarshal sample_libs ''value: 123'' = Inr (Some (fmupd ''value'' (Uint64 123) fmempty))
   \<and> toml_Unmarshal sample_libs ''value = 456'' = Inr (Some (fmupd ''value'' (Int64 456) fmempty))
   \<and> readFrontmatter sample_libs [] ''---\<newline>value: 123\<newline>---\<newline>Body''
       = Inr (Some (fmupd ''value'' (Uint64 123) fmempty))
   \<and> readFrontmatter sample_libs [] ''+++\<newline>value = 456\<newline>+++\<newline>Body''
       = Inr (Some (fmupd ''value'' (Int64 456) fmempty))\<close>
proof -
  have h1: "yaml_Unmarshal sample_libs ''title: T''
              = Inr (Some (fmupd ''title'' (String ''T'') fmempty))"
    by (simp add: sample_eval)
  have h2: \<open>toml_Unmarshal sample_libs ''title = "T"''
              = Inr (Some (fmupd ''title'' (String ''T'') fmempty))\<close>
    by (simp add: sample_eval)
  have h3: "yaml_Unmarshal sample_libs ''value: 123''
              = Inr (Some (fmupd ''value'' (Uint64 123) fmempty))"
    by (simp add: sample_eval)
  have h4: "toml_Unmarshal sample_libs ''value = 456''
              = Inr (Some (fmupd ''value'' (Int64 456) fmempty))"
    by (simp add: sample_eval)
  show ?thesis
    using frontmatter_scenarios[OF h1 h2 h3 h4] h1 h2 h3 h4 by simp
qed

section \<open>Facts about paths and the walk\<close>

text \<open>The extension of a path is \<^verbatim>\<open>.md\<close> exactly when the path ends in it.\<close>

lemma Ext_scan_suffix: "Ext_scan r acc = e \<Longrightarrow> e \<noteq> [] \<Longrightarrow> suffix e (rev r @ acc)"
proof (induction r acc rule: Ext_scan.induct)
  case (1 acc)
  then show ?case by simp
next
  case (2 c rest acc)
  show ?case
  proof (cases "c = CHR ''/''")
    case True
    with 2 show ?thesis by simp
  next
    case nsl: False
    show ?thesis
    proof (cases "c = CHR ''.''")
      case True
      with 2(2) nsl have "e = c # acc" by simp
      then show ?thesis by (simp add: suffix_def)
    next
      case False
      with 2(2) nsl have "Ext_scan rest (c # acc) = e" by simp
      then have "suffix e (rev rest @ c # acc)" using 2(1)[OF nsl False] 2(3) by simp
      then show ?thesis by simp
    qed
  qed
qed

lemma Ext_md: "Ext path = ''.md'' \<longleftrightarrow> suffix ''.md'' path"
proof
  assume "Ext path = ''.md''"
  then have "suffix ''.md'' (rev (rev path) @ [])"
    unfolding Ext_def by (intro Ext_scan_suffix) simp_all
  then show "suffix ''.md'' path" by simp
next
  assume "suffix ''.md'' path"
  then obtain q where "path = q @ ''.md''" by (auto simp: suffix_def)
  then show "Ext path = ''.md''" by (simp add: Ext_def)
qed

lemma suffix_md_Join: "suffix ''.md'' (Join dir n) \<longleftrightarrow> suffix ''.md'' n"
proof (cases "dir = ''.''")
  case True
  then show ?thesis by (simp add: Join_def)
next
  case False
  have "prefix ''dm.'' (rev n @ CHR ''/'' # rev dir) \<longleftrightarrow> prefix ''dm.'' (rev n)"
  proof
    assume "prefix ''dm.'' (rev n @ CHR ''/'' # rev dir)"
    then consider "prefix ''dm.'' (rev n)"
      | us where "''dm.'' = rev n @ us" "prefix us (CHR ''/'' # rev dir)"
      unfolding prefix_append by blast
    then show "prefix ''dm.'' (rev n)"
    proof cases
      case 1
      then show ?thesis .
    next
      case 2
      show ?thesis
      proof (cases us)
        case Nil
        with 2(1) show ?thesis by simp
      next
        case (Cons a us')
        with 2(2) have "a = CHR ''/''" by simp
        then have "CHR ''/'' \<in> set (rev n @ us)" using Cons by simp
        then have "CHR ''/'' \<in> set ''dm.''" using 2(1) by simp
        then show ?thesis by simp
      qed
    qed
  next
    assume "prefix ''dm.'' (rev n)"
    then show "prefix ''dm.'' (rev n @ CHR ''/'' # rev dir)" by (rule prefix_prefix)
  qed
  then have "suffix ''.md'' (dir @ ''/'' @ n) \<longleftrightarrow> suffix ''.md'' n"
    by (simp add: suffix_to_prefix)
  then show ?thesis using False by (simp add: Join_def)
qed

lemma Ext_Join: "Ext (Join dir n) \<noteq> ''.md'' \<longleftrightarrow> \<not> suffix ''.md'' n"
  by (simp add: Ext_md suffix_md_Join)

text \<open>
  A property of the state that every call of the callback keeps is kept by the walk,
  however it ends.
\<close>

lemma walkDir_invariant:
  fixes fn :: "'st WalkDirFunc"
  assumes step: "\<And>path d err st e st'. P st \<Longrightarrow> fn path d err st = (e, st') \<Longrightarrow> P st'"
  shows "P st \<Longrightarrow> P (snd (walkDir fn path d st))"
    and "P st \<Longrightarrow> P (snd (walkDir_range fn path ds st))"
  using step
proof (induction fn path d st and fn path ds st rule: walkDir_walkDir_range.induct)
  case (1 fn path n isDir info dirs rerr st)
  let ?d = "DirEntry n isDir info dirs rerr"
  note st = "1.prems"(1) and stp = "1.prems"(2)
  obtain e1 st1 where c1: "fn path (Some ?d) None st = (e1, st1)"
    by (cases "fn path (Some ?d) None st")
  have p1: "P st1" using stp[OF st c1] .
  show ?case
  proof (cases e1)
    case (Some err)
    then show ?thesis using c1 p1 by simp
  next
    case None
    show ?thesis
    proof (cases isDir)
      case False
      then show ?thesis using c1 None p1 by simp
    next
      case True
      show ?thesis
      proof (cases rerr)
        case rn: None
        have "P (snd (walkDir_range fn path dirs st1))"
          using "1.IH"(1) c1[symmetric] None True rn p1 stp by blast
        then show ?thesis using c1 None True rn by simp
      next
        case (Some e)
        obtain e2 st2 where c2: "fn path (Some ?d) (Some e) st1 = (e2, st2)"
          by (cases "fn path (Some ?d) (Some e) st1")
        have p2: "P st2" using stp[OF p1 c2] .
        show ?thesis
        proof (cases e2)
          case (Some err2)
          then show ?thesis using c1 None True \<open>rerr = Some e\<close> c2 p2 by simp
        next
          case n2: None
          have "P (snd (walkDir_range fn path dirs st2))"
            using "1.IH"(2) c1[symmetric] None True Some c2[symmetric] n2 p2 stp
            by blast
          then show ?thesis using c1 None True Some c2 n2 by simp
        qed
      qed
    qed
  qed
next
  case (2 fn path st)
  then show ?case by simp
next
  case (3 fn path d1 dirs st)
  obtain e1 st1 where c1: "walkDir fn (Join path (DirEntry.Name d1)) d1 st = (e1, st1)"
    by (cases "walkDir fn (Join path (DirEntry.Name d1)) d1 st")
  have p1: "P st1" using "3.IH"(1)[OF "3.prems"(1)] "3.prems"(2) c1 by simp
  show ?case
  proof (cases e1)
    case (Some err)
    then show ?thesis using c1 p1 by simp
  next
    case None
    have "P (snd (walkDir_range fn path dirs st1))"
      using "3.IH"(2) c1[symmetric] None p1 "3.prems"(2) by blast
    then show ?thesis using c1 None by simp
  qed
qed

section \<open>Facts about the scan\<close>

lemma readMarkdownInfo_Inr:
  assumes "readMarkdownInfo L s path d = Inr f"
  shows "markdownFileInfo.Path f = path
     \<and> Info d = Inr \<lparr>FileInfo.Size = markdownFileInfo.Size f\<rparr>
     \<and> (\<exists>content. ReadFile (fs s) path = Inr content
            \<and> readFrontmatter L (excludeFrontmatter s) content = Inr (markdownFileInfo.Frontmatter f))"
  using assms by (auto simp: readMarkdownInfo_def split: sum.splits)

lemma markdownFiles_fn_dir:
  "IsDir d \<Longrightarrow> markdownFiles_fn L s yield path (Some d) None st = (None, st)"
  by (simp add: markdownFiles_fn_def)

lemma markdownFiles_fn_other:
  "\<not> IsDir d \<Longrightarrow> Ext path \<noteq> ''.md'' \<Longrightarrow>
     markdownFiles_fn L s yield path (Some d) None st = (None, st)"
  by (simp add: markdownFiles_fn_def)

lemma markdownFiles_fn_yield:
  "\<not> IsDir d \<Longrightarrow> Ext path = ''.md'' \<Longrightarrow> readMarkdownInfo L s path d = Inr f \<Longrightarrow>
     fst (yield f st) \<Longrightarrow>
     markdownFiles_fn L s yield path (Some d) None st = (None, snd (yield f st))"
  by (cases "yield f st") (simp add: markdownFiles_fn_def)

lemma walkDir_range_ok:
  assumes "list_all listable ds"
    and "\<forall>e \<in> set (filter is_markdown_entry (entries_below dir ds)).
           \<exists>f. readMarkdownInfo L s (fst e) (snd e) = Inr f \<and> (\<forall>st. fst (yield f st))"
  shows "walkDir_range (markdownFiles_fn L s yield) dir ds st =
           (None, fold (\<lambda>e st. snd (yield (projr (readMarkdownInfo L s (fst e) (snd e))) st))
                       (filter is_markdown_entry (entries_below dir ds)) st)"
  using assms
proof (induction dir ds arbitrary: st rule: entries_below.induct)
  case (1 dir)
  then show ?case by simp
next
  case (2 dir n isDir info dirs rerr ds)
  let ?fn = "markdownFiles_fn L s yield"
  let ?d = "DirEntry n isDir info dirs rerr"
  let ?p = "Join dir n"
  let ?step = "\<lambda>e st. snd (yield (projr (readMarkdownInfo L s (fst e) (snd e))) st)"
  have lds: "list_all listable ds" using "2.prems"(1) by simp
  have rest: "\<forall>e \<in> set (filter is_markdown_entry (entries_below dir ds)).
           \<exists>f. readMarkdownInfo L s (fst e) (snd e) = Inr f \<and> (\<forall>st. fst (yield f st))"
    using "2.prems"(2) by simp
  have IHds: "walkDir_range ?fn dir ds st' =
           (None, fold ?step (filter is_markdown_entry (entries_below dir ds)) st')" for st'
    using "2.IH"(2)[OF lds rest] .
  show ?case
  proof (cases isDir)
    case True
    have ld: "rerr = None" "list_all listable dirs" using "2.prems"(1) True by simp_all
    have sub: "\<forall>e \<in> set (filter is_markdown_entry (entries_below ?p dirs)).
           \<exists>f. readMarkdownInfo L s (fst e) (snd e) = Inr f \<and> (\<forall>st. fst (yield f st))"
      using "2.prems"(2) True by simp
    have IHsub: "walkDir_range ?fn ?p dirs st =
           (None, fold ?step (filter is_markdown_entry (entries_below ?p dirs)) st)"
      using "2.IH"(1)[OF True ld(2) sub] .
    have nm: "\<not> is_markdown_entry (?p, ?d)" using True by (simp add: is_markdown_entry_def)
    have w: "walkDir ?fn ?p ?d st =
           (None, fold ?step (filter is_markdown_entry (entries_below ?p dirs)) st)"
      using True ld(1) IHsub by (simp add: markdownFiles_fn_dir)
    show ?thesis
      using w IHds nm True by simp
  next
    case False
    show ?thesis
    proof (cases "suffix ''.md'' n")
      case nomd: False
      then have e: "Ext ?p \<noteq> ''.md''" by (simp add: Ext_md suffix_md_Join)
      have nm: "\<not> is_markdown_entry (?p, ?d)" using nomd by (simp add: is_markdown_entry_def)
      have w: "walkDir ?fn ?p ?d st = (None, st)"
        using False e by (simp add: markdownFiles_fn_other)
      show ?thesis using w IHds nm False by simp
    next
      case md: True
      then have e: "Ext ?p = ''.md''" by (simp add: Ext_md suffix_md_Join)
      have im: "is_markdown_entry (?p, ?d)" using md False by (simp add: is_markdown_entry_def)
      then obtain f where f: "readMarkdownInfo L s ?p ?d = Inr f" "\<forall>st. fst (yield f st)"
        using "2.prems"(2) by fastforce
      have w: "walkDir ?fn ?p ?d st = (None, snd (yield f st))"
        using False e f by (simp add: markdownFiles_fn_yield)
      show ?thesis using w IHds im False f(1) by simp
    qed
  qed
qed

text \<open>
  Every descriptor that reaches \<^verbatim>\<open>yield\<close> was read from the filesystem, so a
  property of the consumer's state that such calls keep holds of the final state.
\<close>

lemma markdownFiles_fn_invariant:
  assumes y: "\<And>f p d st. readMarkdownInfo L s p d = Inr f \<Longrightarrow> P st \<Longrightarrow> P (snd (yield f st))"
    and "P st" "markdownFiles_fn L s yield path d err st = (e, st')"
  shows "P st'"
proof (cases "err = None \<and> d \<noteq> None \<and> \<not> IsDir (the d) \<and> Ext path = ''.md''
                \<and> (\<exists>f. readMarkdownInfo L s path (the d) = Inr f)")
  case True
  then obtain d' f where d: "d = Some d'" and f: "readMarkdownInfo L s path d' = Inr f" by auto
  have "st' = snd (yield f st)"
    using assms(3) True d f by (cases "yield f st") (auto simp: markdownFiles_fn_def split: if_splits bool.splits)
  then show ?thesis using y[OF f assms(2)] by simp
next
  case False
  then have "st' = st"
    using assms(3) by (auto simp: markdownFiles_fn_def split: option.splits if_splits sum.splits bool.splits)
  then show ?thesis using assms(2) by simp
qed

lemma markdownFiles_invariant:
  assumes y: "\<And>f p d st. readMarkdownInfo L s p d = Inr f \<Longrightarrow> P st \<Longrightarrow> P (snd (yield f st))"
    and st: "P st"
  shows "P (markdownFiles L s yield st)"
proof -
  let ?fn = "markdownFiles_fn L s yield"
  have stp: "\<And>path d err st e st'. P st \<Longrightarrow> ?fn path d err st = (e, st') \<Longrightarrow> P st'"
    using markdownFiles_fn_invariant[of L s P yield] y by blast
  show ?thesis
  proof (cases "Stat (fs s) ''.''")
    case (Inl err)
    obtain e st' where c: "?fn ''.'' None (Some err) st = (e, st')"
      by (cases "?fn ''.'' None (Some err) st")
    have "P st'" using stp[OF st c] .
    then show ?thesis using Inl c by (simp add: markdownFiles_def WalkDir_def)
  next
    case (Inr info)
    obtain e st' where c: "walkDir ?fn ''.'' (root (fs s)) st = (e, st')"
      by (cases "walkDir ?fn ''.'' (root (fs s)) st")
    have "P (snd (walkDir ?fn ''.'' (root (fs s)) st))"
      using stp st by (rule walkDir_invariant(1))
    then have "P st'" using c by simp
    then show ?thesis using Inr c by (simp add: markdownFiles_def WalkDir_def)
  qed
qed

text \<open>
  When the root can be examined, every directory can be listed, every document is read
  and decoded, and the consumer never stops, the sequence pushes the descriptors of all
  the documents, in the order of the walk.
\<close>

lemma markdownFiles_ok:
  assumes stat: "Stat (fs s) ''.'' = Inr info"
    and ls: "listable (root (fs s))"
    and ok: "\<forall>e \<in> set (markdown_entries (fs s)).
           \<exists>f. readMarkdownInfo L s (fst e) (snd e) = Inr f \<and> (\<forall>st. fst (yield f st))"
  shows "markdownFiles L s yield st =
           fold (\<lambda>e st. snd (yield (projr (readMarkdownInfo L s (fst e) (snd e))) st))
                (markdown_entries (fs s)) st"
proof -
  let ?fn = "markdownFiles_fn L s yield"
  obtain n isDir i dirs rerr where r: "root (fs s) = DirEntry n isDir i dirs rerr"
    by (cases "root (fs s)")
  show ?thesis
  proof (cases isDir)
    case True
    have l: "rerr = None" "list_all listable dirs" using ls r True by simp_all
    have ok': "\<forall>e \<in> set (filter is_markdown_entry (entries_below ''.'' dirs)).
           \<exists>f. readMarkdownInfo L s (fst e) (snd e) = Inr f \<and> (\<forall>st. fst (yield f st))"
      using ok r True by (simp add: markdown_entries_def)
    have "walkDir ?fn ''.'' (root (fs s)) st = walkDir_range ?fn ''.'' dirs st"
      using r True l(1) by (simp add: markdownFiles_fn_dir)
    then show ?thesis
      using walkDir_range_ok[OF l(2) ok', of st] stat r True
      by (simp add: markdownFiles_def WalkDir_def markdown_entries_def)
  next
    case False
    have "Ext ''.'' \<noteq> ''.md''" by (simp add: Ext_def)
    then have "walkDir ?fn ''.'' (root (fs s)) st = (None, st)"
      using r False by (simp add: markdownFiles_fn_other)
    then show ?thesis
      using stat r False by (simp add: markdownFiles_def WalkDir_def markdown_entries_def)
  qed
qed

lemma fold_append_map: "fold (\<lambda>e acc. acc @ [g e]) es acc = acc @ map g es"
  by (induction es arbitrary: acc) auto

lemma Collect_ok:
  assumes stat: "Stat (fs s) ''.'' = Inr info"
    and ls: "listable (root (fs s))"
    and ok: "\<forall>e \<in> set (markdown_entries (fs s)). \<exists>f. readMarkdownInfo L s (fst e) (snd e) = Inr f"
  shows "Collect (markdownFiles L s) =
           map (\<lambda>e. projr (readMarkdownInfo L s (fst e) (snd e))) (markdown_entries (fs s))"
proof -
  have ok': "\<forall>e \<in> set (markdown_entries (fs s)).
           \<exists>f. readMarkdownInfo L s (fst e) (snd e) = Inr f
              \<and> (\<forall>st. fst ((\<lambda>v acc. (True, acc @ [v])) f st))"
    using ok by simp
  show ?thesis
    unfolding Collect_def markdownFiles_ok[OF stat ls ok']
    by (simp add: fold_append_map)
qed

lemma fold_listResourcesOption_body:
  assumes "\<forall>e \<in> set es. \<exists>desc. json_Marshal L (markdownFileInfo.Frontmatter (g e)) = Inr desc"
  shows "\<exists>rs. fold (\<lambda>e st. snd (listResourcesOption_body L (g e) st)) es (os, None) = (os @ rs, None)
            \<and> list_all2 (\<lambda>o' e. resource_for L (g e) o') rs es"
  using assms
proof (induction es arbitrary: os)
  case Nil
  then show ?case by simp
next
  case (Cons e es)
  from Cons.prems obtain desc where d: "json_Marshal L (markdownFileInfo.Frontmatter (g e)) = Inr desc"
    by auto
  let ?r = "WithResource
                 \<lparr>Resource.URI = ''file://'' @ markdownFileInfo.Path (g e),
                  Resource.Name = Base (markdownFileInfo.Path (g e)),
                  Description = desc,
                  Resource.MimeType = ''text/markdown'',
                  Resource.Size = markdownFileInfo.Size (g e)\<rparr>"
  have s: "snd (listResourcesOption_body L (g e) (os, None)) = (os @ [?r], None)"
    using d by (simp add: listResourcesOption_body_def)
  have rf: "resource_for L (g e) ?r" using d by (simp add: resource_for_def)
  from Cons.prems have "\<forall>e \<in> set es. \<exists>desc. json_Marshal L (markdownFileInfo.Frontmatter (g e)) = Inr desc"
    by simp
  from Cons.IH[OF this, of "os @ [?r]"] obtain rs where
    rs: "fold (\<lambda>e st. snd (listResourcesOption_body L (g e) st)) es (os @ [?r], None) = ((os @ [?r]) @ rs, None)"
      "list_all2 (\<lambda>o' e. resource_for L (g e) o') rs es" by blast
  show ?case
    using s rs rf by (intro exI[of _ "?r # rs"]) simp
qed

lemma listResourcesOption_ok:
  assumes stat: "Stat (fs s) ''.'' = Inr info"
    and ls: "listable (root (fs s))"
    and ok: "\<forall>e \<in> set (markdown_entries (fs s)).
               \<exists>f desc. readMarkdownInfo L s (fst e) (snd e) = Inr f
                  \<and> json_Marshal L (markdownFileInfo.Frontmatter f) = Inr desc"
  shows "\<exists>os. listResourcesOption L s = Inr os
           \<and> list_all2 (\<lambda>o' e. resource_for L (projr (readMarkdownInfo L s (fst e) (snd e))) o')
                 os (markdown_entries (fs s))"
proof -
  let ?g = "\<lambda>e. projr (readMarkdownInfo L s (fst e) (snd e))"
  have ok': "\<forall>e \<in> set (markdown_entries (fs s)).
           \<exists>f. readMarkdownInfo L s (fst e) (snd e) = Inr f
              \<and> (\<forall>st. fst (listResourcesOption_body L f st))"
  proof
    fix e assume "e \<in> set (markdown_entries (fs s))"
    with ok obtain f desc where f: "readMarkdownInfo L s (fst e) (snd e) = Inr f"
      "json_Marshal L (markdownFileInfo.Frontmatter f) = Inr desc" by blast
    then have "\<forall>st. fst (listResourcesOption_body L f st)"
      by (simp add: listResourcesOption_body_def)
    with f(1) show "\<exists>f. readMarkdownInfo L s (fst e) (snd e) = Inr f
              \<and> (\<forall>st. fst (listResourcesOption_body L f st))" by blast
  qed
  have j: "\<forall>e \<in> set (markdown_entries (fs s)).
             \<exists>desc. json_Marshal L (markdownFileInfo.Frontmatter (?g e)) = Inr desc"
    using ok by fastforce
  obtain rs where rs:
    "fold (\<lambda>e st. snd (listResourcesOption_body L (?g e) st)) (markdown_entries (fs s)) ([], None)
       = ([] @ rs, None)"
    "list_all2 (\<lambda>o' e. resource_for L (?g e) o') rs (markdown_entries (fs s))"
    using fold_listResourcesOption_body[OF j, of "[]"] by blast
  show ?thesis
    using rs by (simp add: listResourcesOption_def markdownFiles_ok[OF stat ls ok'])
qed

lemma ReadResource_file:
  "ReadResource s (''file://'' @ p) =
     (case ReadFile (fs s) p of
        Inl err \<Rightarrow> Inl err
      | Inr content \<Rightarrow>
          Inr [\<lparr>TextResourceContents.URI = ''file://'' @ p, Text = content,
                TextResourceContents.MimeType = ''text/markdown''\<rparr>])"
  by (simp add: ReadResource_def HasPrefix_def slice_from_def split: sum.splits)

lemma listResourcesOption_cataloged:
  assumes "listResourcesOption L s = Inr os" "o' \<in> set os"
  shows "cataloged L s o'"
proof -
  let ?P = "\<lambda>st :: mcp_ServerOption list \<times> error option. \<forall>x \<in> set (fst st). cataloged L s x"
  have "?P (markdownFiles L s (listResourcesOption_body L) ([], None))"
  proof (rule markdownFiles_invariant)
    show "?P ([], None)" by simp
  next
    fix f p d and st :: "mcp_ServerOption list \<times> error option"
    assume f: "readMarkdownInfo L s p d = Inr f" and st: "?P st"
    have p: "markdownFileInfo.Path f = p" using readMarkdownInfo_Inr[OF f] by simp
    show "?P (snd (listResourcesOption_body L f st))"
    proof (cases "json_Marshal L (markdownFileInfo.Frontmatter f)")
      case (Inl err)
      then show ?thesis using st by (simp add: listResourcesOption_body_def)
    next
      case (Inr desc)
      have "cataloged L s (WithResource
                 \<lparr>Resource.URI = ''file://'' @ markdownFileInfo.Path f,
                  Resource.Name = Base (markdownFileInfo.Path f),
                  Description = desc,
                  Resource.MimeType = ''text/markdown'',
                  Resource.Size = markdownFileInfo.Size f\<rparr>)"
        unfolding cataloged_def using f p by auto
      then show ?thesis using st Inr by (simp add: listResourcesOption_body_def)
    qed
  qed
  then show ?thesis
    using assms by (auto simp: listResourcesOption_def split: prod.splits option.splits)
qed

text \<open>
  No failure of the scan reaches its consumers: \<^verbatim>\<open>listMarkdownFiles\<close> always
  answers with a list and a nil error, and the only error that
  \<^verbatim>\<open>listResourcesOption\<close> can return is one of \<^verbatim>\<open>json.Marshal\<close>.
\<close>

lemma listMarkdownFiles_never_fails: "\<exists>r. listMarkdownFiles L s = Inr r"
  by (simp add: listMarkdownFiles_def)

lemma listResourcesOption_error_is_from_json:
  assumes "listResourcesOption L s = Inl err"
  shows "\<exists>f :: markdownFileInfo. json_Marshal L (markdownFileInfo.Frontmatter f) = Inl err"
proof -
  let ?P = "\<lambda>st :: mcp_ServerOption list \<times> error option.
              \<forall>e. snd st = Some e \<longrightarrow> (\<exists>f :: markdownFileInfo. json_Marshal L (markdownFileInfo.Frontmatter f) = Inl e)"
  have "?P (markdownFiles L s (listResourcesOption_body L) ([], None))"
  proof (rule markdownFiles_invariant)
    show "?P ([], None)" by simp
  next
    fix f p d and st :: "mcp_ServerOption list \<times> error option"
    assume "?P st"
    then show "?P (snd (listResourcesOption_body L f st))"
      by (cases "json_Marshal L (markdownFileInfo.Frontmatter f)")
         (auto simp: listResourcesOption_body_def)
  qed
  then show ?thesis
    using assms by (auto simp: listResourcesOption_def split: prod.splits option.splits)
qed

lemma scheme_of_file: "prefix ''file://'' uri \<Longrightarrow> scheme_of uri = ''file''"
  by (auto simp: prefix_def scheme_of_def)

lemma scheme_of_prefix: "prefix (scheme_of uri) uri"
  unfolding scheme_of_def by (metis prefixI takeWhile_dropWhile_id)

lemmas fs_eval =
  sample_server_def sample_fs_def broken_server_def broken_fs_def file_entry_def dir_entry_def
  sample_files_def broken_files_def regular_def directory_def
  MapFS_ReadFile_def MapFS_Stat_def MapFS_Open_def ValidPath_def in_range_def HasPrefix_def
  doc_file2_def doc_titled_def doc_invalid_def len_def

lemmas walk_eval =
  listMarkdownFiles_def Collect_def markdownFiles_def WalkDir_def markdownFiles_fn_def
  readMarkdownInfo_def Join_def Ext_def

lemmas frontmatter_eval =
  readFrontmatter_def unmarshalers_def trim_eval HasPrefix_def slice_def slice_from_def
  go_len_0_iff sample_eval

section \<open>Properties of the scan, the catalog and the readers\<close>

text \<open>
  Claim C2 asks that a failure on one file aborts the scan with that error and that the
  construction of the server then fails. In the filesystem \<open>broken_fs\<close> the second
  of three documents does not decode: \<^verbatim>\<open>readMarkdownInfo\<close> returns the error of the
  unmarshaler and the walk stops there, but \<^verbatim>\<open>markdownFiles\<close> does not look at the
  result of the walk, so the sequence just ends after the first descriptor, the catalog is
  built from that one descriptor without an error, and \<^verbatim>\<open>New\<close> returns a server.
\<close>

theorem scan_error_is_dropped:
  \<open>readMarkdownInfo sample_libs broken_server ''b.md'' (file_entry ''b.md'' doc_invalid)
      = Inl (LibError ''yaml: syntax error'')
   \<and> Collect (markdownFiles sample_libs broken_server)
      = [\<lparr>markdownFileInfo.Path = ''a.md'', markdownFileInfo.Size = 21,
          markdownFileInfo.Frontmatter = Some (fmupd ''title'' (String ''T'') fmempty)\<rparr>]
   \<and> listResourcesOption sample_libs broken_server
      = Inr [WithResource
               \<lparr>Resource.URI = ''file://a.md'', Resource.Name = ''a.md'',
                Description = ''{"title":"T"}'', Resource.MimeType = ''text/markdown'',
                Resource.Size = 21\<rparr>]
   \<and> New sample_libs ''docs'' ''Markdown Documents Server'' broken_fs []
      = Inr (''docs'', ''Markdown Documents Server'',
             [WithResource
               \<lparr>Resource.URI = ''file://a.md'', Resource.Name = ''a.md'',
                Description = ''{"title":"T"}'', Resource.MimeType = ''text/markdown'',
                Resource.Size = 21\<rparr>,
              WithResourceReader,
              WithTool ''list_docs_markdown_files'' ''List all markdown files managed by docs'',
              WithTool ''read_docs_markdown_file'' ''Read a markdown file managed by docs''])\<close>
proof -
  have b: "readMarkdownInfo sample_libs broken_server ''b.md'' (file_entry ''b.md'' doc_invalid)
      = Inl (LibError ''yaml: syntax error'')"
    by (simp add: readMarkdownInfo_def fs_eval frontmatter_eval)
  have c: "Collect (markdownFiles sample_libs broken_server)
      = [\<lparr>markdownFileInfo.Path = ''a.md'', markdownFileInfo.Size = 21,
          markdownFileInfo.Frontmatter = Some (fmupd ''title'' (String ''T'') fmempty)\<rparr>]"
    by (simp add: walk_eval fs_eval frontmatter_eval)
  have l: \<open>listResourcesOption sample_libs broken_server
      = Inr [WithResource
               \<lparr>Resource.URI = ''file://a.md'', Resource.Name = ''a.md'',
                Description = ''{"title":"T"}'', Resource.MimeType = ''text/markdown'',
                Resource.Size = 21\<rparr>]\<close>
    by (simp add: listResourcesOption_def listResourcesOption_body_def sample_json_def Base_def
          walk_eval fs_eval frontmatter_eval)
  have n: "New sample_libs ''docs'' ''Markdown Documents Server'' broken_fs []
      = server sample_libs broken_server"
    by (simp add: New_def broken_server_def)
  show ?thesis
    unfolding n using b c l
    by (simp add: server_def listMarkdownFilesTool_def readMarkdownFileTool_def
          broken_server_def sample_libs_def)
qed

text \<open>
  Claim C6, as stated for every snapshot, fails at \<open>broken_fs\<close>: it has three
  non-directory entries whose name ends in \<^verbatim>\<open>.md\<close>, and the list has one descriptor.
\<close>

theorem broken_scan_lists_one_of_three:
  "map fst (markdown_entries (fs broken_server)) = [''a.md'', ''b.md'', ''c.md'']
   \<and> listMarkdownFiles sample_libs broken_server
       = Inr \<lparr>Files =
               [\<lparr>markdownFileInfo.Path = ''a.md'', markdownFileInfo.Size = 21,
                 markdownFileInfo.Frontmatter = Some (fmupd ''title'' (String ''T'') fmempty)\<rparr>]\<rparr>"
proof -
  have m: "map fst (markdown_entries (fs broken_server)) = [''a.md'', ''b.md'', ''c.md'']"
    by (simp add: markdown_entries_def is_markdown_entry_def broken_server_def broken_fs_def
          file_entry_def dir_entry_def Join_def suffix_def)
  have l: "listMarkdownFiles sample_libs broken_server
       = Inr \<lparr>Files =
               [\<lparr>markdownFileInfo.Path = ''a.md'', markdownFileInfo.Size = 21,
                 markdownFileInfo.Frontmatter = Some (fmupd ''title'' (String ''T'') fmempty)\<rparr>]\<rparr>"
    by (simp add: walk_eval fs_eval frontmatter_eval)
  show ?thesis using m l by simp
qed

text \<open>
  Claim C6, amended. When the root can be examined, every directory of the snapshot can
  be listed, and \<^verbatim>\<open>readMarkdownInfo\<close> succeeds on every non-directory entry whose
  name ends in \<^verbatim>\<open>.md\<close>, the response of \<^verbatim>\<open>listMarkdownFiles\<close> has exactly one
  descriptor for each such entry, in the order of the walk, and none for a directory or
  for a file of another name; each descriptor has the path of its entry and the size that
  the entry's \<^verbatim>\<open>Info\<close> reports, whatever the frontmatter is. When moreover every
  frontmatter can be encoded, the catalog has exactly one resource for each descriptor,
  with that size.
\<close>

theorem scan_lists_every_markdown_file:
  assumes "Stat (fs s) ''.'' = Inr info"
    and "listable (root (fs s))"
    and "\<forall>e \<in> set (markdown_entries (fs s)). \<exists>f. readMarkdownInfo L s (fst e) (snd e) = Inr f"
  shows "\<exists>files. listMarkdownFiles L s = Inr \<lparr>Files = files\<rparr>
           \<and> length files = length (markdown_entries (fs s))
           \<and> map Inr files = map (\<lambda>e. readMarkdownInfo L s (fst e) (snd e)) (markdown_entries (fs s))
           \<and> list_all2 (\<lambda>f e. markdownFileInfo.Path f = fst e
                               \<and> Info (snd e) = Inr \<lparr>FileInfo.Size = markdownFileInfo.Size f\<rparr>)
                 files (markdown_entries (fs s))
           \<and> ((\<forall>f \<in> set files. \<exists>desc. json_Marshal L (markdownFileInfo.Frontmatter f) = Inr desc)
                \<longrightarrow> (\<exists>os. listResourcesOption L s = Inr os
                         \<and> list_all2 (\<lambda>o' f. resource_for L f o') os files))"
proof -
  let ?g = "\<lambda>e. projr (readMarkdownInfo L s (fst e) (snd e))"
  let ?files = "map ?g (markdown_entries (fs s))"
  have c: "Collect (markdownFiles L s) = ?files"
    using assms by (rule Collect_ok)
  have g: "readMarkdownInfo L s (fst e) (snd e) = Inr (?g e)"
    if "e \<in> set (markdown_entries (fs s))" for e
    using assms(3) that by fastforce
  have m: "map Inr ?files
             = map (\<lambda>e. readMarkdownInfo L s (fst e) (snd e)) (markdown_entries (fs s))"
    using g by simp
  have a: "list_all2 (\<lambda>f e. markdownFileInfo.Path f = fst e
                               \<and> Info (snd e) = Inr \<lparr>FileInfo.Size = markdownFileInfo.Size f\<rparr>)
                 ?files (markdown_entries (fs s))"
    unfolding list_all2_map1 using readMarkdownInfo_Inr[OF g]
    by (intro list_all2_all_nthI) (auto simp: list_all2_conv_all_nth)
  have r: "\<exists>os. listResourcesOption L s = Inr os
                 \<and> list_all2 (\<lambda>o' f. resource_for L f o') os ?files"
    if j: "\<forall>f \<in> set ?files. \<exists>desc. json_Marshal L (markdownFileInfo.Frontmatter f) = Inr desc"
  proof -
    have "\<forall>e \<in> set (markdown_entries (fs s)).
               \<exists>f desc. readMarkdownInfo L s (fst e) (snd e) = Inr f
                  \<and> json_Marshal L (markdownFileInfo.Frontmatter f) = Inr desc"
    proof
      fix e assume e: "e \<in> set (markdown_entries (fs s))"
      then have "?g e \<in> set ?files" by simp
      then obtain desc where "json_Marshal L (markdownFileInfo.Frontmatter (?g e)) = Inr desc"
        using j by blast
      then show "\<exists>f desc. readMarkdownInfo L s (fst e) (snd e) = Inr f
                  \<and> json_Marshal L (markdownFileInfo.Frontmatter f) = Inr desc"
        using g[OF e] by blast
    qed
    from listResourcesOption_ok[OF assms(1,2) this] show ?thesis
      by (simp add: list_all2_map2)
  qed
  show ?thesis using c m a r by (simp add: listMarkdownFiles_def)
qed

theorem scan_lists_every_markdown_file_witness:
  "Stat (fs sample_server) ''.'' = Inr \<lparr>FileInfo.Size = 0\<rparr>
   \<and> listable (root (fs sample_server))
   \<and> map fst (markdown_entries (fs sample_server)) = [''another.md'', ''dir/file2.md'']
   \<and> (\<exists>a b. listMarkdownFiles sample_libs sample_server = Inr \<lparr>Files = [a, b]\<rparr>
        \<and> markdownFileInfo.Path a = ''another.md'' \<and> markdownFileInfo.Size a = 8
        \<and> markdownFileInfo.Path b = ''dir/file2.md'' \<and> markdownFileInfo.Size b = 30)"
proof -
  have h1: "Stat (fs sample_server) ''.'' = Inr \<lparr>FileInfo.Size = 0\<rparr>"
    by (simp add: fs_eval)
  have h2: "listable (root (fs sample_server))"
    by (simp add: fs_eval)
  have m: "markdown_entries (fs sample_server) =
             [(''another.md'', file_entry ''another.md'' ''content4''),
              (''dir/file2.md'', file_entry ''file2.md'' doc_file2)]"
    by (simp add: markdown_entries_def is_markdown_entry_def sample_server_def sample_fs_def
          file_entry_def dir_entry_def Join_def suffix_def)
  have h3: "\<forall>e \<in> set (markdown_entries (fs sample_server)).
              \<exists>f. readMarkdownInfo sample_libs sample_server (fst e) (snd e) = Inr f"
    unfolding m by (simp add: readMarkdownInfo_def fs_eval frontmatter_eval)
  obtain files where f: "listMarkdownFiles sample_libs sample_server = Inr \<lparr>Files = files\<rparr>"
      "length files = length (markdown_entries (fs sample_server))"
      "list_all2 (\<lambda>f e. markdownFileInfo.Path f = fst e
                               \<and> Info (snd e) = Inr \<lparr>FileInfo.Size = markdownFileInfo.Size f\<rparr>)
                 files (markdown_entries (fs sample_server))"
    using scan_lists_every_markdown_file[OF h1 h2 h3] by blast
  from f(2) obtain a b where ab: "files = [a, b]"
    unfolding m by (cases files; cases "tl files") auto
  have "markdownFileInfo.Path a = ''another.md'' \<and> markdownFileInfo.Size a = 8
        \<and> markdownFileInfo.Path b = ''dir/file2.md'' \<and> markdownFileInfo.Size b = 30"
    using f(3) unfolding m ab by (simp add: file_entry_def doc_file2_def len_def)
  then show ?thesis using h1 h2 m f(1) ab by auto
qed

text \<open>
  Claim C7. The reader, given the fixed prefix \<^verbatim>\<open>file://\<close> followed by any path
  \<open>p\<close>, reads exactly \<open>p\<close> and returns the bytes of the file as the text, with the
  address it was given and the media type \<^verbatim>\<open>text/markdown\<close>. Every resource of the
  catalog has the address \<^verbatim>\<open>file://\<close> followed by the path of a descriptor that the
  scan read, and the same media type; reading that address succeeds and returns the
  content of the file at that path.
\<close>

theorem resource_address_round_trip:
  "ReadResource s (''file://'' @ p) =
     (case ReadFile (fs s) p of
        Inl err \<Rightarrow> Inl err
      | Inr content \<Rightarrow>
          Inr [\<lparr>TextResourceContents.URI = ''file://'' @ p, Text = content,
                TextResourceContents.MimeType = ''text/markdown''\<rparr>])
   \<and> (\<forall>os r. listResourcesOption L s = Inr os \<longrightarrow> WithResource r \<in> set os \<longrightarrow>
         (\<exists>d f content.
            readMarkdownInfo L s (markdownFileInfo.Path f) d = Inr f
            \<and> Resource.URI r = ''file://'' @ markdownFileInfo.Path f
            \<and> Resource.MimeType r = ''text/markdown''
            \<and> ReadFile (fs s) (markdownFileInfo.Path f) = Inr content
            \<and> ReadResource s (Resource.URI r)
                = Inr [\<lparr>TextResourceContents.URI = Resource.URI r, Text = content,
                        TextResourceContents.MimeType = ''text/markdown''\<rparr>]))"
proof (intro conjI allI impI)
  show "ReadResource s (''file://'' @ p) =
     (case ReadFile (fs s) p of
        Inl err \<Rightarrow> Inl err
      | Inr content \<Rightarrow>
          Inr [\<lparr>TextResourceContents.URI = ''file://'' @ p, Text = content,
                TextResourceContents.MimeType = ''text/markdown''\<rparr>])"
    by (rule ReadResource_file)
next
  fix os r
  assume "listResourcesOption L s = Inr os" "WithResource r \<in> set os"
  then have "cataloged L s (WithResource r)" by (rule listResourcesOption_cataloged)
  then obtain d f where f: "readMarkdownInfo L s (markdownFileInfo.Path f) d = Inr f"
      and u: "Resource.URI r = ''file://'' @ markdownFileInfo.Path f"
      and m: "Resource.MimeType r = ''text/markdown''"
    unfolding cataloged_def by auto
  obtain content where c: "ReadFile (fs s) (markdownFileInfo.Path f) = Inr content"
    using readMarkdownInfo_Inr[OF f] by auto
  have "ReadResource s (Resource.URI r)
          = Inr [\<lparr>TextResourceContents.URI = Resource.URI r, Text = content,
                  TextResourceContents.MimeType = ''text/markdown''\<rparr>]"
    unfolding u ReadResource_file using c by simp
  then show "\<exists>d f content.
            readMarkdownInfo L s (markdownFileInfo.Path f) d = Inr f
            \<and> Resource.URI r = ''file://'' @ markdownFileInfo.Path f
            \<and> Resource.MimeType r = ''text/markdown''
            \<and> ReadFile (fs s) (markdownFileInfo.Path f) = Inr content
            \<and> ReadResource s (Resource.URI r)
                = Inr [\<lparr>TextResourceContents.URI = Resource.URI r, Text = content,
                        TextResourceContents.MimeType = ''text/markdown''\<rparr>]"
    using f u m c by blast
qed

theorem resource_address_round_trip_witness:
  \<open>listResourcesOption sample_libs sample_server
     = Inr [WithResource
              \<lparr>Resource.URI = ''file://another.md'', Resource.Name = ''another.md'',
               Description = ''null'', Resource.MimeType = ''text/markdown'',
               Resource.Size = 8\<rparr>,
            WithResource
              \<lparr>Resource.URI = ''file://dir/file2.md'', Resource.Name = ''file2.md'',
               Description = ''{"title":"File 2"}'', Resource.MimeType = ''text/markdown'',
               Resource.Size = 30\<rparr>]
   \<and> ReadResource sample_server ''file://dir/file2.md''
       = Inr [\<lparr>TextResourceContents.URI = ''file://dir/file2.md'', Text = doc_file2,
               TextResourceContents.MimeType = ''text/markdown''\<rparr>]\<close>
proof -
  let ?r2 = \<open>\<lparr>Resource.URI = ''file://dir/file2.md'', Resource.Name = ''file2.md'',
               Description = ''{"title":"File 2"}'', Resource.MimeType = ''text/markdown'',
               Resource.Size = 30\<rparr>\<close>
  let ?os = \<open>[WithResource
              \<lparr>Resource.URI = ''file://another.md'', Resource.Name = ''another.md'',
               Description = ''null'', Resource.MimeType = ''text/markdown'',
               Resource.Size = 8\<rparr>,
            WithResource ?r2]\<close>
  have l: "listResourcesOption sample_libs sample_server = Inr ?os"
    by (simp add: listResourcesOption_def listResourcesOption_body_def sample_json_def Base_def
          walk_eval fs_eval frontmatter_eval)
  have i: "WithResource ?r2 \<in> set ?os" by simp
  note ex = conjunct2[OF resource_address_round_trip[of sample_server "''dir/file2.md''" sample_libs],
            rule_format, OF l i]
  have rf: "ReadFile (fs sample_server) ''dir/file2.md'' = Inr doc_file2"
    by (simp add: fs_eval)
  have "ReadResource sample_server ''file://dir/file2.md''
       = Inr [\<lparr>TextResourceContents.URI = ''file://dir/file2.md'', Text = doc_file2,
               TextResourceContents.MimeType = ''text/markdown''\<rparr>]"
    using ex rf by auto
  then show ?thesis using l by simp
qed

text \<open>
  Claim C8. For an address whose scheme (what stands before its first colon) is not
  \<^verbatim>\<open>file\<close>, the reader returns an error and no content; the message of the error
  is \<^verbatim>\<open>unsupported scheme: \<close> followed by the whole address, so the scheme occurs
  in it.
\<close>

theorem other_scheme_is_rejected:
  assumes "scheme_of uri \<noteq> ''file''"
  shows "ReadResource s uri = Inl (errorString (''unsupported scheme: '' @ uri))
       \<and> sublist (scheme_of uri) (Error (errorString (''unsupported scheme: '' @ uri)))"
proof -
  have "\<not> prefix ''file://'' uri" using assms scheme_of_file by blast
  then have r: "ReadResource s uri = Inl (errorString (''unsupported scheme: '' @ uri))"
    by (simp add: ReadResource_def HasPrefix_def)
  have "sublist (scheme_of uri) uri" using scheme_of_prefix by (rule prefix_imp_sublist)
  then have "sublist (scheme_of uri) (''unsupported scheme: '' @ uri)"
    unfolding sublist_append[of _ "''unsupported scheme: ''"] by blast
  then show ?thesis using r by simp
qed

theorem other_scheme_is_rejected_witness:
  "scheme_of ''http://example.com/file.md'' = ''http''
   \<and> ReadResource sample_server ''http://example.com/file.md''
       = Inl (errorString ''unsupported scheme: http://example.com/file.md'')
   \<and> sublist ''http'' (Error (errorString ''unsupported scheme: http://example.com/file.md''))"
proof -
  have h: "scheme_of ''http://example.com/file.md'' = ''http''"
    by (simp add: scheme_of_def)
  then have ne: "scheme_of ''http://example.com/file.md'' \<noteq> ''file''" by simp
  show ?thesis
    using other_scheme_is_rejected[OF ne, of sample_server] h by simp
qed

section \<open>Reading a path that is not a file\<close>


text \<open>
  What the in-memory filesystem answers to a read: the bytes of a file, the error
  \<^verbatim>\<open>read\<close>, \<^verbatim>\<open>ErrInvalid\<close> for a directory, and the error \<^verbatim>\<open>open\<close>,
  \<^verbatim>\<open>ErrNotExist\<close> for a path that names nothing.
\<close>

lemma MapFS_ReadFile_file:
  "names_file fsys path \<Longrightarrow> \<exists>file. map_of fsys path = Some file \<and> MapFS_ReadFile fsys path = Inr (Data file)"
  by (auto simp: names_file_def MapFS_ReadFile_def MapFS_Open_def split: option.splits)






end
